theory Spec2Isabelle
  imports Main "HOL-Library.Word"
begin

section \<open>Values, errors and logs\<close>

text \<open>
  Go values of type \<open>interface{}\<close> as they flow through the analytic functions and the
  sink node. \<open>VNil\<close> is the nil interface, \<open>VRing\<close> a \<open>*ringqueue\<close> (an address),
  \<open>VWatermark\<close>, \<open>VBatchEOF\<close> and \<open>VEOF\<close> the three stream markers of \<open>xsql\<close>,
  and \<open>VOther\<close> stands for any value of a type the code never inspects.
  \<open>reflect.DeepEqual\<close> on the data values the change detectors compare is structural
  equality. An \<open>error\<close> keeps the constructor that made it: \<open>errors.New\<close>,
  \<open>fmt.Errorf\<close> (kept as the format string and its arguments, unformatted),
  \<open>ProduceErrInfo\<close>, \<open>errorx.NewEOF\<close>, and the runtime's own panics, which are
  error values in Go.
\<close>

datatype val =
    VNil
  | VBool bool
  | VInt int
  | VStr string
  | VErr error
  | VRing nat
  | VWatermark int
  | VBatchEOF
  | VEOF string
  | VOther nat
and error =
    ErrorsNew string
  | Errorf string "val list"
  | ErrInfo nat string
  | NewEOF string
  | RuntimeError string

datatype level = LvDebug | LvInfo | LvError

datatype logentry = Log level string "val list"

text \<open>
  The process-wide state the two infra functions write to: the logger of the stream
  context, the global \<open>conf.Log\<close> and standard error (\<open>debug.PrintStack\<close>).
\<close>

record world =
  ctxLog :: "logentry list"
  confLog :: "logentry list"
  stderr :: "string list"

section \<open>Channels and the non-blocking send\<close>

text \<open>
  A Go channel as far as a \<open>select\<close> with a \<open>default\<close> branch can see it: the buffered
  values, the capacity, the number of receivers blocked on it and the values handed
  directly to such receivers. A send is ready when a receiver waits or the buffer has
  room; \<open>try_send\<close> is \<open>select { case ch <- v: default: }\<close> and reports whether the
  send happened. A nil channel is never ready: capacity 0 and no receiver. The code
  in scope closes none of its channels.
\<close>

record 'a chan =
  ch_buf :: "'a list"
  ch_cap :: nat
  ch_recvq :: nat
  ch_handed :: "'a list"

definition send_ready :: "'a chan \<Rightarrow> bool" where
  "send_ready ch = (0 < ch_recvq ch \<or> length (ch_buf ch) < ch_cap ch)"

definition do_send :: "'a chan \<Rightarrow> 'a \<Rightarrow> 'a chan" where
  "do_send ch v =
     (if 0 < ch_recvq ch
      then ch\<lparr>ch_recvq := ch_recvq ch - 1, ch_handed := ch_handed ch @ [v]\<rparr>
      else ch\<lparr>ch_buf := ch_buf ch @ [v]\<rparr>)"

definition try_send :: "'a chan \<Rightarrow> 'a \<Rightarrow> bool \<times> 'a chan" where
  "try_send ch v = (if send_ready ch then (True, do_send ch v) else (False, ch))"

section \<open>infra: SafeRun and DrainError\<close>

text \<open>
  What running the unit \<open>fn\<close> does: it returns an error (or nil), or it panics and
  \<open>recover()\<close> yields the value \<open>r\<close>. \<open>Panics VNil\<close> is a recovered nil, which
  the deferred function treats as no panic (since Go 1.21 \<open>recover()\<close> never yields nil
  for a panic: \<open>panic(nil)\<close> arrives as a runtime error value).
\<close>

datatype fn_outcome = Returns "error option" | Panics val

text \<open>
  \<open>SafeRun\<close>: the named result \<open>err\<close> is nil until \<open>fn\<close> returns; the deferred
  function overwrites it when it recovers a non-nil value. \<open>stack\<close> is the text of
  \<open>debug.Stack()\<close>.
\<close>

definition recovered_error :: "val \<Rightarrow> error" where
  "recovered_error r =
     (case r of
        VStr x \<Rightarrow> ErrorsNew x
      | VErr x \<Rightarrow> x
      | x \<Rightarrow> Errorf ''%#v'' [x])"

definition SafeRun ::
  "string \<Rightarrow> ('a world_scheme \<Rightarrow> fn_outcome \<times> 'a world_scheme) \<Rightarrow> 'a world_scheme
     \<Rightarrow> error option \<times> 'a world_scheme" where
  "SafeRun stack fn w =
     (case fn w of
        (Returns err, w') \<Rightarrow> (err, w')
      | (Panics r, w') \<Rightarrow>
          (if r \<noteq> VNil
           then (Some (recovered_error r),
                 w'\<lparr>confLog := confLog w' @ [Log LvError ''panic stack:%s'' [VStr stack]],
                    stderr := stderr w' @ [stack]\<rparr>)
           else (None, w')))"

text \<open>
  \<open>DrainError\<close>: \<open>caller\<close> is the file and line \<open>runtime.Caller(1)\<close> reports,
  \<open>ctx\<close> tells whether the stream context is non-nil. The log is guarded by
  \<open>err != nil\<close>; the \<open>select\<close> after it is not.
\<close>

definition DrainError ::
  "string \<times> int \<Rightarrow> bool \<Rightarrow> error option \<Rightarrow> 'a world_scheme \<Rightarrow> error option chan
     \<Rightarrow> 'a world_scheme \<times> error option chan" where
  "DrainError caller ctx err w errCh =
     (let w' =
        (case err of
           None \<Rightarrow> w
         | Some e \<Rightarrow>
             (if ctx
              then w\<lparr>ctxLog := ctxLog w @
                     [Log LvError ''runtime error from %s/l%d: %v''
                        [VStr (fst caller), VInt (snd caller), VErr e]]\<rparr>
              else w\<lparr>confLog := confLog w @
                     [Log LvError ''runtime error %s/l%d: %v''
                        [VStr (fst caller), VInt (snd caller), VErr e]]\<rparr>))
      in (w', snd (try_send errCh err)))"

section \<open>The circular state buffer\<close>

text \<open>
  Modelled from the spec: the type \<open>ringqueue\<close>, which \<open>lag\<close> uses and the sources do
  not contain: a sequence of slots of a fixed capacity, holding its values oldest
  first. The spec fixes the operations below for a capacity of at least 1. Each
  operation is given as what it does to the buffer the pointer refers to.
\<close>

datatype ringqueue = Ringqueue (items: "val list") (capacity: int)

text \<open>Modelled from the spec: \<open>newRingqueue\<close> allocates the slots, all empty.\<close>

definition newRingqueue :: "int \<Rightarrow> ringqueue" where
  "newRingqueue sz = Ringqueue [] sz"

text \<open>Modelled from the spec: \<open>fill\<close> sets every slot to the value.\<close>

definition fill :: "ringqueue \<Rightarrow> val \<Rightarrow> ringqueue" where
  "fill rq item = Ringqueue (replicate (nat (capacity rq)) item) (capacity rq)"

text \<open>
  Modelled from the spec: \<open>peek\<close> reads the oldest value without changing the buffer;
  its second result tells whether there was a value.
\<close>

definition peek :: "ringqueue \<Rightarrow> val \<times> bool" where
  "peek rq = (case items rq of [] \<Rightarrow> (VNil, False) | x # _ \<Rightarrow> (x, True))"

text \<open>
  Modelled from the spec: \<open>fetch\<close> evicts and returns the oldest value, the one
  \<open>append\<close> would evict.
\<close>

definition fetch :: "ringqueue \<Rightarrow> (val \<times> bool) \<times> ringqueue" where
  "fetch rq =
     (case items rq of
        [] \<Rightarrow> ((VNil, False), rq)
      | x # xs \<Rightarrow> ((x, True), Ringqueue xs (capacity rq)))"

text \<open>
  Modelled from the spec: \<open>append\<close> inserts the value as newest and, when the buffer
  is at capacity, evicts and returns the oldest.
\<close>

definition append_rq :: "ringqueue \<Rightarrow> val \<Rightarrow> val \<times> ringqueue" where
  "append_rq rq item =
     (if int (length (items rq)) < capacity rq
      then (VNil, Ringqueue (items rq @ [item]) (capacity rq))
      else (case items rq of
              [] \<Rightarrow> (VNil, rq)
            | x # xs \<Rightarrow> (x, Ringqueue (xs @ [item]) (capacity rq))))"

section \<open>The stateful analytic functions\<close>

text \<open>
  The function context as the four functions use it: \<open>GetState\<close> and \<open>PutState\<close> of
  the state store, over a store of any type \<open>'s\<close>, and \<open>cast.ToInt\<close> in strict mode.
  All three are code outside the sources, so they are parameters. A \<open>PutState\<close> that
  fails still returns the store it leaves behind.
\<close>

record 's fctx =
  GetState :: "'s \<Rightarrow> string \<Rightarrow> val \<times> error option"
  PutState :: "'s \<Rightarrow> string \<Rightarrow> val \<Rightarrow> 's \<times> error option"
  ToInt :: "val \<Rightarrow> error + int"

text \<open>
  An \<open>exec\<close> returns \<open>(interface{}, bool)\<close> or panics; a panic carries the runtime's
  error value.
\<close>

datatype outcome = Ret val bool | Panic error

definition index :: "val list \<Rightarrow> int \<Rightarrow> val option" where
  "index args i = (if 0 \<le> i \<and> i < int (length args) then Some (args ! nat i) else None)"

text \<open>\<open>args[i]\<close>, continuing with the element or panicking when \<open>i\<close> is out of range.\<close>

definition at :: "val list \<Rightarrow> int \<Rightarrow> 's \<Rightarrow> (val \<Rightarrow> 's \<times> outcome) \<Rightarrow> 's \<times> outcome" where
  "at args i s k =
     (case index args i of
        None \<Rightarrow> (s, Panic (RuntimeError ''index out of range''))
      | Some v \<Rightarrow> k v)"

text \<open>The unchecked type assertion \<open>v.(string)\<close>.\<close>

definition as_string :: "val \<Rightarrow> 's \<Rightarrow> (string \<Rightarrow> 's \<times> outcome) \<Rightarrow> 's \<times> outcome" where
  "as_string v s k =
     (case v of
        VStr key \<Rightarrow> k key
      | _ \<Rightarrow> (s, Panic (RuntimeError ''interface conversion: not a string'')))"

text \<open>\<open>strconv.Itoa\<close>: the decimal digits of an integer.\<close>

definition digit_char :: "nat \<Rightarrow> char" where
  "digit_char d = ''0123456789'' ! d"

function itoa_nat :: "nat \<Rightarrow> string" where
  "itoa_nat n = (if n < 10 then [digit_char n] else itoa_nat (n div 10) @ [digit_char (n mod 10)])"
  by pat_completeness auto
termination
  by (relation "measure (\<lambda>n. n)") auto

definition Itoa :: "int \<Rightarrow> string" where
  "Itoa i = (if i < 0 then CHR ''-'' # itoa_nat (nat (- i)) else itoa_nat (nat i))"

subsection \<open>changed_col\<close>

text \<open>The part of \<open>changed_col\<close> after the \<open>ignoreNull\<close> guard.\<close>

definition changed_col_compare :: "'s fctx \<Rightarrow> 's \<Rightarrow> val list \<Rightarrow> 's \<times> outcome" where
  "changed_col_compare ctx s args =
     at args (int (length args) - 2) s (\<lambda>w.
       case w of
         VBool validData \<Rightarrow>
           if \<not> validData then (s, Ret VNil True)
           else at args (int (length args) - 1) s (\<lambda>kv. as_string kv s (\<lambda>key.
             case GetState ctx s key of
               (lv, Some err) \<Rightarrow> (s, Ret (VErr err) False)
             | (lv, None) \<Rightarrow>
                 at args 1 s (\<lambda>a1.
                   if a1 \<noteq> lv
                   then (case PutState ctx s key a1 of
                           (s', Some err) \<Rightarrow> (s', Ret (VErr err) False)
                         | (s', None) \<Rightarrow> (s', Ret a1 True))
                   else (s, Ret VNil True))))
       | _ \<Rightarrow> (s, Ret (VErr (Errorf ''when arg is not a bool but got %v'' [w])) False))"

definition changed_col :: "'s fctx \<Rightarrow> 's \<Rightarrow> val list \<Rightarrow> 's \<times> outcome" where
  "changed_col ctx s args =
     at args 0 s (\<lambda>a0.
       case a0 of
         VBool ignoreNull \<Rightarrow>
           if ignoreNull
           then at args 1 s (\<lambda>a1.
                  if a1 = VNil then (s, Ret VNil True) else changed_col_compare ctx s args)
           else changed_col_compare ctx s args
       | _ \<Rightarrow> (s, Ret (VErr (Errorf ''first arg is not a bool but got %v'' [a0])) False))"

subsection \<open>had_changed\<close>

text \<open>
  The loop \<open>for i := 1; i < paraLen; i++\<close>; every \<open>i\<close> it visits is an index of
  \<open>args\<close>, since \<open>paraLen = len(args) - 2\<close>.
\<close>

function had_changed_loop ::
  "'s fctx \<Rightarrow> val list \<Rightarrow> string \<Rightarrow> bool \<Rightarrow> int \<Rightarrow> int \<Rightarrow> bool \<Rightarrow> 's \<Rightarrow> 's \<times> outcome" where
  "had_changed_loop ctx args key ignoreNull paraLen i result s =
     (if i < paraLen
      then (let v = args ! nat i; k = key @ Itoa i
            in if ignoreNull \<and> v = VNil
               then had_changed_loop ctx args key ignoreNull paraLen (i + 1) result s
               else (case GetState ctx s k of
                       (lv, Some err) \<Rightarrow>
                         (s, Ret (VErr (Errorf ''error getting state for %s: %v''
                                          [VStr k, VErr err])) False)
                     | (lv, None) \<Rightarrow>
                         if v \<noteq> lv
                         then (case PutState ctx s k v of
                                 (s', Some err) \<Rightarrow>
                                   (s', Ret (VErr (Errorf ''error setting state for %s: %v''
                                                     [VStr k, VErr err])) False)
                               | (s', None) \<Rightarrow>
                                   had_changed_loop ctx args key ignoreNull paraLen (i + 1) True s')
                         else had_changed_loop ctx args key ignoreNull paraLen (i + 1) result s))
      else (s, Ret (VBool result) True))"
  by pat_completeness auto
termination
  by (relation "measure (\<lambda>(ctx, args, key, ignoreNull, paraLen, i, result, s). nat (paraLen - i))")
     auto

definition had_changed :: "'s fctx \<Rightarrow> 's \<Rightarrow> val list \<Rightarrow> 's \<times> outcome" where
  "had_changed ctx s args =
     (let l = int (length args) - 2
      in if l \<le> 1
         then (s, Ret (VErr (Errorf ''expect more than one arg but got %d''
                               [VInt (int (length args))])) False)
         else (case args ! (length args - 2) of
                 VBool validData \<Rightarrow>
                   if \<not> validData then (s, Ret (VBool False) True)
                   else (case args ! 0 of
                           VBool ignoreNull \<Rightarrow>
                             as_string (args ! (length args - 1)) s (\<lambda>key.
                               had_changed_loop ctx args key ignoreNull
                                 (int (length args) - 2) 1 False s)
                         | a0 \<Rightarrow>
                             (s, Ret (VErr (Errorf ''first arg is not a bool but got %v'' [a0]))
                                   False))
               | w \<Rightarrow> (s, Ret (VErr (Errorf ''when arg is not a bool but got %v'' [w])) False)))"

text \<open>
  The static validation of \<open>had_changed\<close>. The three \<open>ast\<close> predicates are code outside
  the sources and are parameters.
\<close>

record 'e ast_preds =
  IsNumericArg :: "'e \<Rightarrow> bool"
  IsTimeArg :: "'e \<Rightarrow> bool"
  IsStringArg :: "'e \<Rightarrow> bool"

definition had_changed_val :: "'e ast_preds \<Rightarrow> 'e list \<Rightarrow> error option" where
  "had_changed_val ast args =
     (if length args \<le> 1
      then Some (Errorf ''expect more than one arg but got %d'' [VInt (int (length args))])
      else if IsNumericArg ast (args ! 0) \<or> IsTimeArg ast (args ! 0) \<or> IsStringArg ast (args ! 0)
      then Some (ErrInfo 0 ''bool'')
      else None)"

subsection \<open>lag\<close>

text \<open>
  \<open>lag\<close> keeps a \<open>*ringqueue\<close> in the state store and changes the buffer through the
  pointer, so the buffers live in a heap of their own, next to the store: \<open>cells\<close>
  maps an address to the buffer allocated there, \<open>fresh\<close> is the next address to
  allocate.
\<close>

record heap =
  cells :: "nat \<Rightarrow> ringqueue option"
  fresh :: nat

definition alloc :: "heap \<Rightarrow> ringqueue \<Rightarrow> nat \<times> heap" where
  "alloc h rq = (fresh h, h\<lparr>cells := (cells h)(fresh h \<mapsto> rq), fresh := fresh h + 1\<rparr>)"

definition store_rq :: "heap \<Rightarrow> nat \<Rightarrow> ringqueue \<Rightarrow> heap" where
  "store_rq h p rq = h\<lparr>cells := (cells h)(p \<mapsto> rq)\<rparr>"

text \<open>
  The end of \<open>lag\<close>, from \<open>rq.peek()\<close> on. The pointer \<open>rq\<close> is \<open>None\<close> when the
  stored value was not a \<open>*ringqueue\<close> and the assertion left a nil pointer, on which
  \<open>peek\<close> panics; so does the model on an address that was never allocated, which Go
  cannot produce. \<open>fetch\<close> and \<open>append\<close> change the buffer in the heap before
  \<open>PutState\<close> is called, whatever \<open>PutState\<close> then returns.
\<close>

definition nil_dereference :: outcome where
  "nil_dereference = Panic (RuntimeError ''invalid memory address or nil pointer dereference'')"

definition lag_emit ::
  "'s fctx \<Rightarrow> 's \<times> heap \<Rightarrow> val list \<Rightarrow> string \<Rightarrow> nat option \<Rightarrow> bool \<Rightarrow> bool
     \<Rightarrow> ('s \<times> heap) \<times> outcome" where
  "lag_emit ctx sh args key rqp validData ignoreNull =
     (case rqp of
        None \<Rightarrow> (sh, nil_dereference)
      | Some p \<Rightarrow>
          (case cells (snd sh) p of
             None \<Rightarrow> (sh, nil_dereference)
           | Some rq \<Rightarrow>
               (let rtnVal = fst (peek rq)
                in if validData
                   then (if \<not> ignoreNull \<or> args ! 0 \<noteq> VNil
                         then (let (r, rq1) = fetch rq;
                                   rq2 = snd (append_rq rq1 (args ! 0));
                                   h' = store_rq (snd sh) p rq2
                               in case PutState ctx (fst sh) key (VRing p) of
                                    (s', Some err) \<Rightarrow>
                                      ((s', h'),
                                       Ret (VErr (Errorf ''error setting state for %s: %v''
                                                    [VStr key, VErr err])) False)
                                  | (s', None) \<Rightarrow> ((s', h'), Ret (fst r) True))
                         else (sh, Ret rtnVal True))
                   else (sh, Ret rtnVal True))))"

text \<open>The first call for a key creates the buffer, fills it and stores the pointer.\<close>

definition lag_state ::
  "'s fctx \<Rightarrow> 's \<times> heap \<Rightarrow> val list \<Rightarrow> string \<Rightarrow> val \<Rightarrow> bool \<Rightarrow> int \<Rightarrow> val \<Rightarrow> bool
     \<Rightarrow> ('s \<times> heap) \<times> outcome" where
  "lag_state ctx sh args key v validData sz dftVal ignoreNull =
     (if v = VNil
      then (let (p, h0) = alloc (snd sh) (newRingqueue sz);
                h' = store_rq h0 p (fill (newRingqueue sz) dftVal)
            in case PutState ctx (fst sh) key (VRing p) of
                 (s', Some err) \<Rightarrow>
                   ((s', h'), Ret (VErr (Errorf ''error setting state for %s: %v''
                                           [VStr key, VErr err])) False)
               | (s', None) \<Rightarrow> lag_emit ctx (s', h') args key (Some p) validData ignoreNull)
      else lag_emit ctx sh args key (case v of VRing p \<Rightarrow> Some p | _ \<Rightarrow> None)
             validData ignoreNull)"

text \<open>The optional arguments \<open>size\<close>, \<open>default\<close> and \<open>ignoreNull\<close>; \<open>l\<close> is at least 1.\<close>

definition lag_opts ::
  "'s fctx \<Rightarrow> 's \<times> heap \<Rightarrow> val list \<Rightarrow> int \<Rightarrow> string \<Rightarrow> val \<Rightarrow> bool \<Rightarrow> ('s \<times> heap) \<times> outcome" where
  "lag_opts ctx sh args l key v validData =
     (case (if l \<ge> 2 then ToInt ctx (args ! 1) else Inr 1) of
        Inl err \<Rightarrow>
          (sh, Ret (VErr (Errorf ''error converting second arg %v to int: %v''
                            [args ! 1, VErr err])) False)
      | Inr sz \<Rightarrow>
          (let dftVal = (if l \<ge> 3 then args ! 2 else VNil)
           in if l \<ge> 4
              then (case args ! 3 of
                      VBool ignoreNull \<Rightarrow>
                        lag_state ctx sh args key v validData sz dftVal ignoreNull
                    | _ \<Rightarrow>
                        (sh, Ret (VErr (Errorf ''The fourth arg is not a bool but got %v''
                                          [args ! 0])) False))
              else lag_state ctx sh args key v validData sz dftVal True))"

definition lag :: "'s fctx \<Rightarrow> 's \<times> heap \<Rightarrow> val list \<Rightarrow> ('s \<times> heap) \<times> outcome" where
  "lag ctx sh args =
     (let l = int (length args) - 2
      in if l < 1 \<or> l > 4
         then (sh, Ret (VErr (Errorf ''expect from 1 to 4 args but got %d'' [VInt l])) False)
         else as_string (args ! (length args - 1)) sh (\<lambda>key.
                case GetState ctx (fst sh) key of
                  (v, Some err) \<Rightarrow>
                    (sh, Ret (VErr (Errorf ''error getting state for %s: %v''
                                      [VStr key, VErr err])) False)
                | (v, None) \<Rightarrow>
                    (case args ! (length args - 2) of
                       VBool validData \<Rightarrow> lag_opts ctx sh args l key v validData
                     | w \<Rightarrow>
                         (sh, Ret (VErr (Errorf ''when arg is not a bool but got %v'' [w]))
                                False))))"

subsection \<open>latest\<close>

text \<open>The error \<open>PutState\<close> returns is not bound to anything.\<close>

definition latest :: "'s fctx \<Rightarrow> 's \<Rightarrow> val list \<Rightarrow> 's \<times> outcome" where
  "latest ctx s args =
     (let l = int (length args) - 2
      in if l \<noteq> 1 \<and> l \<noteq> 2
         then (s, Ret (VErr (Errorf ''expect one or two args but got %d'' [VInt l])) False)
         else (let paraLen = int (length args) - 2
               in as_string (args ! (length args - 1)) s (\<lambda>key.
                    case args ! (length args - 2) of
                      VBool validData \<Rightarrow>
                        if validData \<and> args ! 0 \<noteq> VNil
                        then (fst (PutState ctx s key (args ! 0)), Ret (args ! 0) True)
                        else (case GetState ctx s key of
                                (v, Some err) \<Rightarrow>
                                  (s, Ret (VErr (Errorf ''error getting state for %s: %v''
                                                   [VStr key, VErr err])) False)
                              | (v, None) \<Rightarrow>
                                  if v = VNil
                                  then (if paraLen = 2 then (s, Ret (args ! 1) True)
                                        else (s, Ret VNil True))
                                  else (s, Ret v True))
                    | w \<Rightarrow>
                        (s, Ret (VErr (Errorf ''when arg is not a bool but got %v'' [w]))
                              False))))"

subsection \<open>A state store in memory\<close>

text \<open>
  Modelled from the spec: the state store capability, which the sources only call. It
  is a store with get and put, a key never written reads as nil, and neither operation
  fails. The integer cast stays a parameter.
\<close>

definition mem_ctx :: "(val \<Rightarrow> error + int) \<Rightarrow> (string \<Rightarrow> val) fctx" where
  "mem_ctx toInt =
     \<lparr>GetState = (\<lambda>s key. (s key, None)),
      PutState = (\<lambda>s key v. (s(key := v), None)),
      ToInt = toInt\<rparr>"

definition empty_store :: "string \<Rightarrow> val" where
  "empty_store = (\<lambda>key. VNil)"

definition empty_heap :: heap where
  "empty_heap = \<lparr>cells = (\<lambda>p. None), fresh = 0\<rparr>"

text \<open>
  Successive calls of one function on the same store: the store they leave and what each
  returned.
\<close>

fun run_calls ::
  "('s \<Rightarrow> val list \<Rightarrow> 's \<times> outcome) \<Rightarrow> 's \<Rightarrow> val list list \<Rightarrow> 's \<times> outcome list" where
  "run_calls f s [] = (s, [])"
| "run_calls f s (args # rest) =
     (case f s args of (s', r) \<Rightarrow> (case run_calls f s' rest of (s'', rs) \<Rightarrow> (s'', r # rs)))"

section \<open>The sink node\<close>

text \<open>
  Where the goroutine of \<open>Exec\<close> stands: before the loop has started, blocked in the
  \<open>select\<close> of the main loop, blocked in the \<open>select\<close> of the retry loop with the
  record and the error of the last attempt, or returned.
\<close>

datatype phase = Created | Idle | Retrying val error | Exited

text \<open>
  The calls the node makes to its collaborators, recorded in order: the hooks of the
  embedded default node, the collect strategy, the ticker and the two closes.
\<close>

datatype call =
    OnProcessStart val
  | DoCollect val
  | OnError error
  | OnSend val
  | OnProcessEnd
  | SetBufferLength
  | GetTicker int
  | TickerStop
  | SinkClose
  | NodeClose

text \<open>
  The node with the part of its stream context the code reads: the logger and whether
  the context is cancelled. \<open>tickers\<close> counts the deferred \<open>ticker.Stop()\<close> calls, one
  for each time the retry loop was entered. \<open>currentEof\<close> and \<open>eoflimit\<close> are machine
  integers.
\<close>

record 'sk sink_node =
  name :: string
  opId :: string
  instanceId :: int
  sendError :: bool
  eoflimit :: "64 word"
  currentEof :: "64 word"
  resendInterval :: int
  resendOut :: "val chan option"
  ctrlCh :: "error option chan"
  errCh :: "error option chan"
  sink :: 'sk
  phase :: phase
  cancelled :: bool
  tickers :: nat
  calls :: "call list"
  logs :: world

text \<open>
  The code outside the sources that the node runs: the collect strategy and the
  connect of the sink, the \<open>preprocess\<close> of the embedded default node,
  \<open>errorx.IsIOError\<close>, \<open>xsql.GetId\<close>, and the source locations \<open>runtime.Caller\<close>
  reports inside \<open>DrainError\<close>.
\<close>

record 'sk sink_env =
  doCollect :: "'sk \<Rightarrow> val \<Rightarrow> error option \<times> 'sk"
  Connect :: "'sk \<Rightarrow> error option \<times> 'sk"
  preprocess :: "val \<Rightarrow> val \<times> bool"
  IsIOError :: "error \<Rightarrow> bool"
  GetId :: "val \<Rightarrow> val"
  caller_ingest :: "string \<times> int"
  caller_exec :: "string \<times> int"

definition logf :: "level \<Rightarrow> string \<Rightarrow> val list \<Rightarrow> 'sk sink_node \<Rightarrow> 'sk sink_node" where
  "logf lv fmt as n = n\<lparr>logs := (logs n)\<lparr>ctxLog := ctxLog (logs n) @ [Log lv fmt as]\<rparr>\<rparr>"

definition called :: "call \<Rightarrow> 'sk sink_node \<Rightarrow> 'sk sink_node" where
  "called c n = n\<lparr>calls := calls n @ [c]\<rparr>"

subsection \<open>ingest\<close>

definition ingest :: "'sk sink_env \<Rightarrow> val \<Rightarrow> 'sk sink_node \<Rightarrow> (val \<times> bool) \<times> 'sk sink_node" where
  "ingest env item0 n0 =
     (let n = logf LvDebug ''%s_%d receive %v'' [VStr (opId n0), VInt (instanceId n0), item0] n0;
          (item, processed) = preprocess env item0
      in if processed then ((item, processed), n)
         else (case item of
                 VErr d \<Rightarrow> if sendError n then ((VErr d, False), n) else ((VNil, True), n)
               | VWatermark t \<Rightarrow> ((VNil, True), n)
               | VBatchEOF \<Rightarrow> ((VNil, True), n)
               | VEOF d \<Rightarrow>
                   (let n1 = n\<lparr>currentEof := currentEof n + 1\<rparr>
                    in if eoflimit n1 = currentEof n1
                       then (case DrainError (caller_ingest env) True (Some (NewEOF d))
                                    (logs n1) (ctrlCh n1) of
                               (w', ch') \<Rightarrow> ((VNil, True), n1\<lparr>logs := w', ctrlCh := ch'\<rparr>))
                       else ((VNil, True), n1))
               | _ \<Rightarrow>
                   ((item, False),
                    logf LvDebug ''%s_%d receive data %v''
                      [VStr (opId n), VInt (instanceId n), item] n)))"

subsection \<open>The resend broadcast\<close>

text \<open>
  The \<open>select\<close> of the broadcast closure: a send on \<open>resendOut\<close>, the cancellation of
  the context, and a \<open>default\<close>. With a \<open>default\<close> it never waits. When both the send
  and the cancellation are ready Go picks one of them at random; \<open>pick_send\<close> is that
  choice.
\<close>

definition resend_select :: "bool \<Rightarrow> val \<Rightarrow> 'sk sink_node \<Rightarrow> 'sk sink_node" where
  "resend_select pick_send v n =
     (case resendOut n of
        None \<Rightarrow> n
      | Some ch \<Rightarrow>
          (if send_ready ch \<and> (\<not> cancelled n \<or> pick_send)
           then n\<lparr>resendOut := Some (do_send ch v)\<rparr>
           else if cancelled n then n
           else called (OnError (Errorf ''buffer full, drop message from %s to resend sink''
                                   [VStr (name n)])) n))"

text \<open>
  Modelled from the spec: \<open>BroadcastCustomized\<close> of the embedded default node, which the
  sources only call; it broadcasts the record with the function it is given.
\<close>

definition BroadcastCustomized ::
  "val \<Rightarrow> (val \<Rightarrow> 'sk sink_node \<Rightarrow> 'sk sink_node) \<Rightarrow> 'sk sink_node \<Rightarrow> 'sk sink_node" where
  "BroadcastCustomized v broadcastFunc n = broadcastFunc v n"

subsection \<open>The loop of Exec\<close>

text \<open>
  What the goroutine can meet while it is blocked: the context is cancelled
  (\<open>Cancel\<close>, a change of the environment), or one branch of its \<open>select\<close> fires:
  \<open>SelDone\<close> for \<open>ctx.Done()\<close>, \<open>SelInput d pick_send\<close> for a record \<open>d\<close> received
  from the input channel (with the random choice of the broadcast for this record),
  \<open>SelTick\<close> for the ticker of the retry loop.
\<close>

datatype event = Cancel | SelDone | SelInput val bool | SelTick

text \<open>The end of one iteration of the main loop.\<close>

definition process_end :: "'sk sink_node \<Rightarrow> 'sk sink_node" where
  "process_end n = (called SetBufferLength (called OnProcessEnd n))\<lparr>phase := Idle\<rparr>"

text \<open>
  The test of the retry loop, \<open>err != nil && IsIOError(err)\<close>, with what follows on
  either side: one more wait, or the end of the retry and of the iteration.
\<close>

definition retry_check :: "'sk sink_env \<Rightarrow> val \<Rightarrow> error option \<Rightarrow> 'sk sink_node \<Rightarrow> 'sk sink_node" where
  "retry_check env data err n =
     (case err of
        Some e \<Rightarrow>
          if IsIOError env e
          then (logf LvDebug ''wait resending %v'' [GetId env data] n)\<lparr>phase := Retrying data e\<rparr>
          else process_end (logf LvDebug ''no io error %v'' [VErr e] n)
      | None \<Rightarrow>
          process_end (called (OnSend data) (logf LvDebug ''resend success %v'' [GetId env data] n)))"

definition collect :: "'sk sink_env \<Rightarrow> val \<Rightarrow> 'sk sink_node \<Rightarrow> error option \<times> 'sk sink_node" where
  "collect env data n =
     (case doCollect env (sink n) data of
        (err, sk) \<Rightarrow> (err, called (DoCollect data) (n\<lparr>sink := sk\<rparr>)))"

text \<open>The branch \<open>case d := <-s.input\<close> of the main loop.\<close>

definition on_input :: "'sk sink_env \<Rightarrow> val \<Rightarrow> bool \<Rightarrow> 'sk sink_node \<Rightarrow> 'sk sink_node" where
  "on_input env d pick_send n0 =
     (case ingest env d n0 of
        ((data, processed), n1) \<Rightarrow>
          if processed then n1
          else (case collect env data (called (OnProcessStart data) n1) of
                  (Some err, n2) \<Rightarrow>
                    (let n3 = called (OnError err) n2
                     in if resendOut n3 \<noteq> None
                        then process_end (BroadcastCustomized data (resend_select pick_send) n3)
                        else if resendInterval n3 > 0
                        then (if \<not> IsIOError env err
                              then process_end
                                     (logf LvError ''no io error %v, drop %v''
                                        [VErr err, GetId env data] n3)
                              else retry_check env data (Some err)
                                     ((called (GetTicker (resendInterval n3)) n3)
                                        \<lparr>tickers := tickers n3 + 1\<rparr>))
                        else process_end n3)
                | (None, n2) \<Rightarrow> process_end (called (OnSend data) n2)))"

text \<open>The branch \<open>case <-ticker.C\<close> of the retry loop.\<close>

definition on_tick :: "'sk sink_env \<Rightarrow> val \<Rightarrow> 'sk sink_node \<Rightarrow> 'sk sink_node" where
  "on_tick env data n =
     (case collect env data n of
        (err, n1) \<Rightarrow> retry_check env data err (called SetBufferLength n1))"

text \<open>
  \<open>return nil\<close> from the function \<open>SafeRun\<close> runs: the deferred calls run, last
  deferred first, and the goroutine ends; a nil result is not drained.
\<close>

definition on_return :: "'sk sink_node \<Rightarrow> 'sk sink_node" where
  "on_return n =
     n\<lparr>calls := calls n @ replicate (tickers n) TickerStop @ [SinkClose, NodeClose],
       tickers := 0, phase := Exited\<rparr>"

text \<open>
  One step of the goroutine; \<open>None\<close> when the event cannot happen in this phase: the
  main loop does not listen to the ticker, the retry loop does not read the input
  channel, \<open>ctx.Done()\<close> fires only once the context is cancelled, and a goroutine that
  has not started or has returned takes no step.
\<close>

definition exec_step :: "'sk sink_env \<Rightarrow> event \<Rightarrow> 'sk sink_node \<Rightarrow> 'sk sink_node option" where
  "exec_step env ev n =
     (case phase n of
        Created \<Rightarrow> None
      | Exited \<Rightarrow> None
      | Idle \<Rightarrow>
          (case ev of
             Cancel \<Rightarrow> Some (n\<lparr>cancelled := True\<rparr>)
           | SelDone \<Rightarrow> if cancelled n then Some (on_return n) else None
           | SelInput d pick_send \<Rightarrow> Some (on_input env d pick_send n)
           | SelTick \<Rightarrow> None)
      | Retrying data err \<Rightarrow>
          (case ev of
             Cancel \<Rightarrow> Some (n\<lparr>cancelled := True\<rparr>)
           | SelDone \<Rightarrow>
               if cancelled n
               then Some (on_return (logf LvInfo ''rule stop, exit retry for %v'' [GetId env data] n))
               else None
           | SelInput d pick_send \<Rightarrow> None
           | SelTick \<Rightarrow> Some (on_tick env data n)))"

text \<open>
  The start of the goroutine, up to the first \<open>select\<close>. \<open>prepareExec\<close> and
  \<open>setKafkaSinkStatsManager\<close> set up the statistics and are left out. The
  collaborators are taken to return: a panic of theirs would reach \<open>SafeRun\<close>, which
  the whole body runs under.
\<close>

definition exec_start :: "'sk sink_env \<Rightarrow> 'sk sink_node \<Rightarrow> 'sk sink_node" where
  "exec_start env n =
     (case Connect env (sink n) of
        (err, sk) \<Rightarrow>
          (let n1 = n\<lparr>sink := sk\<rparr>;
               n2 = (case err of
                       None \<Rightarrow> n1
                     | Some e \<Rightarrow>
                         (case DrainError (caller_exec env) True (Some e) (logs n1) (errCh n1) of
                            (w', ch') \<Rightarrow> n1\<lparr>logs := w', errCh := ch'\<rparr>))
           in n2\<lparr>currentEof := 0, phase := Idle\<rparr>))"

text \<open>A run of the goroutine over the events it meets, in order.\<close>

fun exec_run :: "'sk sink_env \<Rightarrow> event list \<Rightarrow> 'sk sink_node \<Rightarrow> 'sk sink_node option" where
  "exec_run env [] n = Some n"
| "exec_run env (ev # evs) n =
     (case exec_step env ev n of None \<Rightarrow> None | Some n' \<Rightarrow> exec_run env evs n')"

section \<open>Notions used in the statements\<close>

definition is_bool :: "val \<Rightarrow> bool" where
  "is_bool v = (case v of VBool b \<Rightarrow> True | _ \<Rightarrow> False)"

definition is_string :: "val \<Rightarrow> bool" where
  "is_string v = (case v of VStr x \<Rightarrow> True | _ \<Rightarrow> False)"

text \<open>The call returned \<open>(error, false)\<close>; in particular it did not panic.\<close>

definition error_false :: "'s \<times> outcome \<Rightarrow> bool" where
  "error_false r = (case snd r of Ret (VErr e) False \<Rightarrow> True | _ \<Rightarrow> False)"

text \<open>The configuration in which a failed collect is retried in place.\<close>

definition retry_config :: "'sk sink_node \<Rightarrow> bool" where
  "retry_config n = (resendOut n = None \<and> 0 < resendInterval n)"

text \<open>An item that is neither an error nor one of the three stream markers.\<close>

definition plain_item :: "val \<Rightarrow> bool" where
  "plain_item v =
     (case v of
        VErr e \<Rightarrow> False
      | VWatermark t \<Rightarrow> False
      | VBatchEOF \<Rightarrow> False
      | VEOF d \<Rightarrow> False
      | _ \<Rightarrow> True)"

section \<open>Concrete inputs\<close>

text \<open>An integer cast that converts the integers and nothing else.\<close>

definition int_only :: "val \<Rightarrow> error + int" where
  "int_only v = (case v of VInt i \<Rightarrow> Inr i | _ \<Rightarrow> Inl (ErrorsNew ''not an integer''))"

text \<open>A state store that reads like the one in memory and refuses every write.\<close>

definition readonly_ctx :: "(string \<Rightarrow> val) fctx" where
  "readonly_ctx =
     \<lparr>GetState = (\<lambda>s key. (s key, None)),
      PutState = (\<lambda>s key v. (s, Some (ErrorsNew ''read-only store''))),
      ToInt = int_only\<rparr>"

text \<open>A heap with one buffer, of capacity 1, holding 0.\<close>

definition one_buffer :: heap where
  "one_buffer = \<lparr>cells = (\<lambda>p. if p = 0 then Some (Ringqueue [VInt 0] 1) else None), fresh = 1\<rparr>"

text \<open>Expressions none of which is a numeric, time or string literal.\<close>

definition field_refs :: "nat ast_preds" where
  "field_refs =
     \<lparr>IsNumericArg = (\<lambda>e. False), IsTimeArg = (\<lambda>e. False), IsStringArg = (\<lambda>e. False)\<rparr>"

definition quiet :: world where
  "quiet = \<lparr>ctxLog = [], confLog = [], stderr = []\<rparr>"

text \<open>An empty channel with one buffer slot, and a channel that cannot take a value.\<close>

definition one_slot :: "'a chan" where
  "one_slot = \<lparr>ch_buf = [], ch_cap = 1, ch_recvq = 0, ch_handed = []\<rparr>"

definition no_slot :: "'a chan" where
  "no_slot = \<lparr>ch_buf = [], ch_cap = 0, ch_recvq = 0, ch_handed = []\<rparr>"

text \<open>
  A sink that counts the attempts made on it: it rejects the record \<open>VOther 0\<close> with an
  error that is not of the I/O class, and any other record with an I/O error on the
  first two attempts.
\<close>

definition flaky_env :: "nat sink_env" where
  "flaky_env =
     \<lparr>doCollect = (\<lambda>sk d.
        (if d = VOther 0 then Some (ErrorsNew ''expect tuple data type'')
         else if sk < 2 then Some (ErrorsNew ''io timeout'')
         else None, Suc sk)),
      Connect = (\<lambda>sk. (None, sk)),
      preprocess = (\<lambda>v. (v, False)),
      IsIOError = (\<lambda>e. e = ErrorsNew ''io timeout''),
      GetId = (\<lambda>v. v),
      caller_ingest = (''sink_node.go'', 188),
      caller_exec = (''sink_node.go'', 90)\<rparr>"

text \<open>A node waiting in the main loop, with a resend interval and no resend channel.\<close>

definition waiting_node :: "nat sink_node" where
  "waiting_node =
     \<lparr>name = ''sink'', opId = ''op'', instanceId = 0, sendError = True,
      eoflimit = 2, currentEof = 0, resendInterval = 100, resendOut = None,
      ctrlCh = one_slot, errCh = one_slot, sink = 0, phase = Idle, cancelled = False,
      tickers = 0, calls = [], logs = quiet\<rparr>"

text \<open>The same node in the retry loop, after one failed attempt on the record \<open>VInt 1\<close>.\<close>

definition retrying_node :: "nat sink_node" where
  "retrying_node =
     waiting_node\<lparr>sink := 1, phase := Retrying (VInt 1) (ErrorsNew ''io timeout''),
                  tickers := 1\<rparr>"

section \<open>Helper facts\<close>

lemma error_false_Ret [simp]: "error_false (s, Ret (VErr e) False)"
  by (simp add: error_false_def)

lemma Itoa_1: "Itoa 1 = ''1''"
  by (simp add: Itoa_def digit_char_def)

section \<open>Properties of the error drain\<close>

text \<open>
  C1, as the code has it. For every call \<open>DrainError(ctx, nil, errCh)\<close> nothing is
  logged, but the non-blocking send is still made, with the nil value: when the
  channel has a waiting receiver or a free buffer slot the nil is delivered to it,
  otherwise the channel is unchanged.
\<close>

theorem DrainError_nil:
  "DrainError caller ctx None w ch = (w, if send_ready ch then do_send ch None else ch)"
  by (simp add: DrainError_def try_send_def)

theorem DrainError_nil_witness:
  "DrainError (''sink_node.go'', 155) True None quiet (no_slot :: error option chan)
     = (quiet, no_slot)"
  using DrainError_nil [of "(''sink_node.go'', 155)" True quiet "no_slot :: error option chan"]
  by (simp add: send_ready_def no_slot_def)

text \<open>
  C1 as stated fails: on an empty channel with one buffer slot the call with a nil
  error leaves the nil in the buffer, where a receiver will find it.
\<close>

theorem nil_error_is_sent:
  "DrainError (''sink_node.go'', 155) True None quiet one_slot
     = (quiet, \<lparr>ch_buf = [None], ch_cap = 1, ch_recvq = 0, ch_handed = []\<rparr>)
   \<and> \<lparr>ch_buf = [None], ch_cap = 1, ch_recvq = 0, ch_handed = []\<rparr> \<noteq> (one_slot :: error option chan)"
  by (simp add: DrainError_def try_send_def send_ready_def do_send_def one_slot_def)

section \<open>Properties of the fault isolation wrapper\<close>

text \<open>
  C4. When the unit panics with a string, \<open>SafeRun\<close> returns \<open>errors.New\<close> of that
  string; when it panics with an error, that error; when it panics with any other
  value, the error \<open>fmt.Errorf("%#v", x)\<close> of that value (\<open>recover()\<close> yields no nil
  for a panic); and when the unit returns, what it returned, error or nil, with
  nothing else changed.
\<close>

theorem SafeRun_result:
  "(fn w = (Panics (VStr x), w') \<longrightarrow> fst (SafeRun stack fn w) = Some (ErrorsNew x)) \<and>
   (fn w = (Panics (VErr e), w') \<longrightarrow> fst (SafeRun stack fn w) = Some e) \<and>
   (fn w = (Panics r, w') \<and> r \<noteq> VNil \<and> \<not> is_string r \<and> (\<forall>e. r \<noteq> VErr e)
      \<longrightarrow> fst (SafeRun stack fn w) = Some (Errorf ''%#v'' [r])) \<and>
   (fn w = (Returns err, w') \<longrightarrow> SafeRun stack fn w = (err, w'))"
  by (cases r) (simp_all add: SafeRun_def recovered_error_def is_string_def)

theorem SafeRun_result_witness:
  "fst (SafeRun ''stack'' (\<lambda>w. (Panics (VStr ''boom''), w)) quiet) = Some (ErrorsNew ''boom'') \<and>
   fst (SafeRun ''stack'' (\<lambda>w. (Panics (VErr (NewEOF ''done'')), w)) quiet) = Some (NewEOF ''done'') \<and>
   fst (SafeRun ''stack'' (\<lambda>w. (Panics (VInt 42), w)) quiet) = Some (Errorf ''%#v'' [VInt 42]) \<and>
   SafeRun ''stack'' (\<lambda>w. (Returns (Some (ErrorsNew ''failed'')), w)) quiet
     = (Some (ErrorsNew ''failed''), quiet)"
proof -
  have a: "fst (SafeRun ''stack'' (\<lambda>w. (Panics (VStr ''boom''), w)) quiet) = Some (ErrorsNew ''boom'')"
    using SafeRun_result [of "\<lambda>w. (Panics (VStr ''boom''), w)" quiet "''boom''" quiet]
    by simp
  have b: "fst (SafeRun ''stack'' (\<lambda>w. (Panics (VErr (NewEOF ''done'')), w)) quiet)
             = Some (NewEOF ''done'')"
    using SafeRun_result [of "\<lambda>w. (Panics (VErr (NewEOF ''done'')), w)" quiet _ quiet
                             "''stack''" "NewEOF ''done''"]
    by simp
  have c: "fst (SafeRun ''stack'' (\<lambda>w. (Panics (VInt 42), w)) quiet) = Some (Errorf ''%#v'' [VInt 42])"
    using SafeRun_result [where fn = "\<lambda>w. (Panics (VInt 42), w)" and w = quiet and w' = quiet
                            and r = "VInt 42" and stack = "''stack''"]
    by (simp add: is_string_def)
  have d: "SafeRun ''stack'' (\<lambda>w. (Returns (Some (ErrorsNew ''failed'')), w)) quiet
             = (Some (ErrorsNew ''failed''), quiet)"
    using SafeRun_result [where fn = "\<lambda>w. (Returns (Some (ErrorsNew ''failed'')), w)"
                            and w = quiet and w' = quiet and stack = "''stack''"
                            and err = "Some (ErrorsNew ''failed'')"]
    by simp
  from a b c d show ?thesis by simp
qed

section \<open>Properties of the analytic functions\<close>

text \<open>
  C2. A call of \<open>changed_col\<close> with \<open>ignoreNull\<close> true and a nil value returns the nil
  result that stands for "nothing to emit" (with the flag true, as the unchanged value
  does) and leaves the state store as it was; so does a call whose validity flag is
  false. The result holds for every state store, so the store is not even read.
\<close>

theorem changed_col_noop:
  "(2 \<le> length args \<and> args ! 0 = VBool True \<and> args ! 1 = VNil
      \<longrightarrow> changed_col ctx s args = (s, Ret VNil True)) \<and>
   (2 \<le> length args \<and> args ! 0 = VBool ign \<and> args ! (length args - 2) = VBool False
      \<longrightarrow> changed_col ctx s args = (s, Ret VNil True))"
  by (auto simp add: changed_col_def changed_col_compare_def at_def index_def nat_diff_distrib)

theorem changed_col_noop_witness:
  "changed_col readonly_ctx empty_store [VBool True, VNil, VBool True, VStr ''k'']
     = (empty_store, Ret VNil True) \<and>
   changed_col readonly_ctx empty_store [VBool False, VInt 5, VBool False, VStr ''k'']
     = (empty_store, Ret VNil True)"
  using changed_col_noop [where args = "[VBool True, VNil, VBool True, VStr ''k'']"
                            and ctx = readonly_ctx and s = empty_store]
        changed_col_noop [where args = "[VBool False, VInt 5, VBool False, VStr ''k'']"
                            and ctx = readonly_ctx and s = empty_store and ign = False]
  by simp

text \<open>
  One call of \<open>lag\<close> with size 2 and default 0 on the store in memory: the first for
  the key, and one that finds a buffer of two values.
\<close>

lemma lag_size2_first:
  assumes "toInt (VInt 2) = Inr 2" and "s ''k'' = VNil"
  shows "lag (mem_ctx toInt) (s, h) [VInt v, VInt 2, VInt 0, VBool True, VStr ''k'']
     = ((s(''k'' := VRing (fresh h)),
         \<lparr>cells = (cells h)(fresh h \<mapsto> Ringqueue [VInt 0, VInt v] 2), fresh = fresh h + 1\<rparr>),
        Ret (VInt 0) True)"
  using assms
  by (simp add: lag_def lag_opts_def lag_state_def lag_emit_def as_string_def mem_ctx_def
        newRingqueue_def fill_def peek_def fetch_def append_rq_def alloc_def store_rq_def
        Let_def numeral_2_eq_2)

lemma lag_size2_next:
  assumes "toInt (VInt 2) = Inr 2" and "s ''k'' = VRing p"
    and "cells h p = Some (Ringqueue [x, y] 2)"
  shows "lag (mem_ctx toInt) (s, h) [VInt v, VInt 2, VInt 0, VBool True, VStr ''k'']
     = ((s, h\<lparr>cells := (cells h)(p \<mapsto> Ringqueue [y, VInt v] 2)\<rparr>), Ret x True)"
proof -
  have "s(''k'' := VRing p) = s" using assms(2) by auto
  with assms show ?thesis
    by (simp add: lag_def lag_opts_def lag_state_def lag_emit_def as_string_def mem_ctx_def
          peek_def fetch_def append_rq_def store_rq_def Let_def)
qed

text \<open>
  C3. From the empty store, three calls of \<open>lag\<close> for key \<open>k\<close> with size 2, default 0,
  validity true and the values 10, 20, 30 return 0, 0, 10. The first call creates the
  buffer filled with the default, returns its oldest value and appends 10; each call
  returns the oldest value and leaves a buffer that lost it and gained the new value.
\<close>

theorem lag_three_calls:
  assumes "toInt (VInt 2) = Inr 2"
  shows "snd (run_calls (lag (mem_ctx toInt)) (empty_store, empty_heap)
           [[VInt 10, VInt 2, VInt 0, VBool True, VStr ''k''],
            [VInt 20, VInt 2, VInt 0, VBool True, VStr ''k''],
            [VInt 30, VInt 2, VInt 0, VBool True, VStr ''k'']])
         = [Ret (VInt 0) True, Ret (VInt 0) True, Ret (VInt 10) True] \<and>
       cells (snd (fst (run_calls (lag (mem_ctx toInt)) (empty_store, empty_heap)
           [[VInt 10, VInt 2, VInt 0, VBool True, VStr ''k'']]))) 0
         = Some (Ringqueue [VInt 0, VInt 10] 2) \<and>
       cells (snd (fst (run_calls (lag (mem_ctx toInt)) (empty_store, empty_heap)
           [[VInt 10, VInt 2, VInt 0, VBool True, VStr ''k''],
            [VInt 20, VInt 2, VInt 0, VBool True, VStr ''k'']]))) 0
         = Some (Ringqueue [VInt 10, VInt 20] 2) \<and>
       cells (snd (fst (run_calls (lag (mem_ctx toInt)) (empty_store, empty_heap)
           [[VInt 10, VInt 2, VInt 0, VBool True, VStr ''k''],
            [VInt 20, VInt 2, VInt 0, VBool True, VStr ''k''],
            [VInt 30, VInt 2, VInt 0, VBool True, VStr ''k'']]))) 0
         = Some (Ringqueue [VInt 20, VInt 30] 2) \<and>
       fst (fst (run_calls (lag (mem_ctx toInt)) (empty_store, empty_heap)
           [[VInt 10, VInt 2, VInt 0, VBool True, VStr ''k''],
            [VInt 20, VInt 2, VInt 0, VBool True, VStr ''k''],
            [VInt 30, VInt 2, VInt 0, VBool True, VStr ''k'']])) ''k''
         = VRing 0"
  using assms
  by (simp add: lag_size2_first lag_size2_next empty_store_def empty_heap_def)

theorem lag_three_calls_witness:
  "int_only (VInt 2) = Inr 2 \<and>
   snd (run_calls (lag (mem_ctx int_only)) (empty_store, empty_heap)
          [[VInt 10, VInt 2, VInt 0, VBool True, VStr ''k''],
           [VInt 20, VInt 2, VInt 0, VBool True, VStr ''k''],
           [VInt 30, VInt 2, VInt 0, VBool True, VStr ''k'']])
     = [Ret (VInt 0) True, Ret (VInt 0) True, Ret (VInt 10) True]"
proof -
  have h: "int_only (VInt 2) = Inr 2" by (simp add: int_only_def)
  from h lag_three_calls [where toInt = int_only, OF h] show ?thesis by simp
qed

text \<open>
  C5, as the code has it. Each function returns \<open>(error, false)\<close>, without a panic,
  when a boolean argument it gets to look at is not boolean. \<open>changed_col\<close>: the first
  argument; and the validity flag, unless \<open>ignoreNull\<close> is true and the value nil.
  \<open>had_changed\<close>: the validity flag; and the first argument when the validity flag is
  true. \<open>lag\<close> and \<open>latest\<close>, with a string as key: the validity flag; \<open>lag\<close> also
  its fourth argument.
\<close>

theorem boolean_argument_errors:
  "(1 \<le> length args \<and> \<not> is_bool (args ! 0) \<longrightarrow> error_false (changed_col ctx s args)) \<and>
   (2 \<le> length args \<and> \<not> is_bool (args ! (length args - 2)) \<and> args ! 0 = VBool ign \<and>
      \<not> (ign \<and> args ! 1 = VNil) \<longrightarrow> error_false (changed_col ctx s args)) \<and>
   (2 \<le> length args \<and> \<not> is_bool (args ! (length args - 2))
      \<longrightarrow> error_false (had_changed ctx s args)) \<and>
   (4 \<le> length args \<and> args ! (length args - 2) = VBool True \<and> \<not> is_bool (args ! 0)
      \<longrightarrow> error_false (had_changed ctx s args)) \<and>
   (2 \<le> length args \<and> is_string (args ! (length args - 1)) \<and>
      \<not> is_bool (args ! (length args - 2)) \<longrightarrow> error_false (lag ctx (s, h) args)) \<and>
   (length args = 6 \<and> is_string (args ! 5) \<and> \<not> is_bool (args ! 3)
      \<longrightarrow> error_false (lag ctx (s, h) args)) \<and>
   (2 \<le> length args \<and> is_string (args ! (length args - 1)) \<and>
      \<not> is_bool (args ! (length args - 2)) \<longrightarrow> error_false (latest ctx s args))"
proof -
  have cc_first: "error_false (changed_col ctx s args)"
    if "1 \<le> length args" "\<not> is_bool (args ! 0)"
    using that
    by (cases "args ! 0") (auto simp add: changed_col_def at_def index_def is_bool_def)
  have cc_valid: "error_false (changed_col ctx s args)"
    if "2 \<le> length args" "\<not> is_bool (args ! (length args - 2))" "args ! 0 = VBool ign"
       "\<not> (ign \<and> args ! 1 = VNil)"
    using that
    by (cases "args ! (length args - 2)")
       (auto simp add: changed_col_def changed_col_compare_def at_def index_def is_bool_def
          nat_diff_distrib)
  have hc_valid: "error_false (had_changed ctx s args)"
    if "2 \<le> length args" "\<not> is_bool (args ! (length args - 2))"
    using that
    by (cases "args ! (length args - 2)") (auto simp add: had_changed_def is_bool_def Let_def)
  have hc_first: "error_false (had_changed ctx s args)"
    if "4 \<le> length args" "args ! (length args - 2) = VBool True" "\<not> is_bool (args ! 0)"
    using that
    by (cases "args ! 0") (auto simp add: had_changed_def is_bool_def Let_def)
  have lag_valid: "error_false (lag ctx (s, h) args)"
    if "2 \<le> length args" "is_string (args ! (length args - 1))"
       "\<not> is_bool (args ! (length args - 2))"
    using that
    by (cases "args ! (length args - 1)"; cases "args ! (length args - 2)")
       (auto simp add: lag_def is_bool_def is_string_def Let_def as_string_def
          split: prod.splits option.splits)
  have lag_fourth: "error_false (lag ctx (s, h) args)"
    if "length args = 6" "is_string (args ! 5)" "\<not> is_bool (args ! 3)"
    using that
    by (cases "args ! 5"; cases "args ! 3"; cases "args ! 4")
       (auto simp add: lag_def lag_opts_def is_bool_def is_string_def Let_def as_string_def
          split: prod.splits option.splits sum.splits)
  have latest_valid: "error_false (latest ctx s args)"
    if "2 \<le> length args" "is_string (args ! (length args - 1))"
       "\<not> is_bool (args ! (length args - 2))"
    using that
    by (cases "args ! (length args - 1)"; cases "args ! (length args - 2)")
       (auto simp add: latest_def is_bool_def is_string_def Let_def as_string_def
          split: prod.splits option.splits)
  show ?thesis
    using cc_first cc_valid hc_valid hc_first lag_valid lag_fourth latest_valid by blast
qed

theorem boolean_argument_errors_witness:
  "error_false (changed_col readonly_ctx empty_store [VInt 1, VInt 5, VBool True, VStr ''k'']) \<and>
   error_false (changed_col readonly_ctx empty_store [VBool False, VInt 5, VStr ''yes'', VStr ''k'']) \<and>
   error_false (had_changed readonly_ctx empty_store [VBool True, VInt 5, VStr ''yes'', VStr ''k'']) \<and>
   error_false (had_changed readonly_ctx empty_store [VInt 1, VInt 5, VBool True, VStr ''k'']) \<and>
   error_false (lag readonly_ctx (empty_store, empty_heap) [VInt 5, VStr ''yes'', VStr ''k'']) \<and>
   error_false (lag readonly_ctx (empty_store, empty_heap)
                  [VInt 5, VInt 1, VInt 0, VStr ''no'', VBool True, VStr ''k'']) \<and>
   error_false (latest readonly_ctx empty_store [VInt 5, VStr ''yes'', VStr ''k''])"
proof -
  have a: "error_false (changed_col readonly_ctx empty_store [VInt 1, VInt 5, VBool True, VStr ''k''])"
    using boolean_argument_errors
            [where args = "[VInt 1, VInt 5, VBool True, VStr ''k'']" and ctx = readonly_ctx
               and s = empty_store]
    by (simp add: is_bool_def)
  have b: "error_false (changed_col readonly_ctx empty_store
                          [VBool False, VInt 5, VStr ''yes'', VStr ''k''])"
    using boolean_argument_errors
            [where args = "[VBool False, VInt 5, VStr ''yes'', VStr ''k'']" and ctx = readonly_ctx
               and s = empty_store and ign = False]
    by (simp add: is_bool_def)
  have c: "error_false (had_changed readonly_ctx empty_store
                          [VBool True, VInt 5, VStr ''yes'', VStr ''k''])"
    using boolean_argument_errors
            [where args = "[VBool True, VInt 5, VStr ''yes'', VStr ''k'']" and ctx = readonly_ctx
               and s = empty_store]
    by (simp add: is_bool_def)
  have d: "error_false (had_changed readonly_ctx empty_store
                          [VInt 1, VInt 5, VBool True, VStr ''k''])"
    using boolean_argument_errors
            [where args = "[VInt 1, VInt 5, VBool True, VStr ''k'']" and ctx = readonly_ctx
               and s = empty_store]
    by (simp add: is_bool_def)
  have e: "error_false (lag readonly_ctx (empty_store, empty_heap) [VInt 5, VStr ''yes'', VStr ''k''])"
    using boolean_argument_errors
            [where args = "[VInt 5, VStr ''yes'', VStr ''k'']" and ctx = readonly_ctx
               and s = empty_store and h = empty_heap]
    by (simp add: is_bool_def is_string_def)
  have f: "error_false (lag readonly_ctx (empty_store, empty_heap)
                          [VInt 5, VInt 1, VInt 0, VStr ''no'', VBool True, VStr ''k''])"
    using boolean_argument_errors
            [where args = "[VInt 5, VInt 1, VInt 0, VStr ''no'', VBool True, VStr ''k'']"
               and ctx = readonly_ctx and s = empty_store and h = empty_heap]
    by (simp add: is_bool_def is_string_def)
  have g: "error_false (latest readonly_ctx empty_store [VInt 5, VStr ''yes'', VStr ''k''])"
    using boolean_argument_errors
            [where args = "[VInt 5, VStr ''yes'', VStr ''k'']" and ctx = readonly_ctx
               and s = empty_store]
    by (simp add: is_bool_def is_string_def)
  from a b c d e f g show ?thesis by simp
qed

text \<open>
  C5 as stated fails in two places. \<open>changed_col\<close> with \<open>ignoreNull\<close> true, a nil value
  and a string as validity flag returns \<open>(nil, true)\<close>; \<open>had_changed\<close> with an integer
  as first argument and the validity flag false returns \<open>(false, true)\<close>. Neither
  returns an error.
\<close>

theorem boolean_argument_not_checked:
  "changed_col readonly_ctx empty_store [VBool True, VNil, VStr ''yes'', VStr ''k'']
     = (empty_store, Ret VNil True) \<and>
   had_changed readonly_ctx empty_store [VInt 5, VInt 1, VInt 2, VBool False, VStr ''k'']
     = (empty_store, Ret (VBool False) True)"
  by (simp add: changed_col_def at_def index_def had_changed_def)

text \<open>
  C6, as the code has it. \<open>had_changed\<close> requires at least one argument besides the
  \<open>ignoreNull\<close> flag, two arguments in all: a call with fewer (fewer than four with
  the validity flag and the key) and a validation of fewer than two expressions return
  the arity error and evaluate nothing.
\<close>

theorem had_changed_arity:
  "(length args < 4 \<longrightarrow>
      had_changed ctx s args =
        (s, Ret (VErr (Errorf ''expect more than one arg but got %d''
                         [VInt (int (length args))])) False)) \<and>
   (length es < 2 \<longrightarrow>
      had_changed_val ast es =
        Some (Errorf ''expect more than one arg but got %d'' [VInt (int (length es))]))"
  by (auto simp add: had_changed_def had_changed_val_def)

theorem had_changed_arity_witness:
  "had_changed readonly_ctx empty_store [VBool True, VBool True, VStr ''k'']
     = (empty_store, Ret (VErr (Errorf ''expect more than one arg but got %d'' [VInt 3])) False) \<and>
   had_changed_val field_refs [0]
     = Some (Errorf ''expect more than one arg but got %d'' [VInt 1])"
  using had_changed_arity [where args = "[VBool True, VBool True, VStr ''k'']"
                             and ctx = readonly_ctx and s = empty_store
                             and es = "[0]" and ast = field_refs]
  by simp

text \<open>
  C6 as stated fails: with exactly one argument besides the flag there is no arity
  error. The call evaluates: it reads the state of \<open>k1\<close>, finds the value unchanged
  and returns false; and the validation accepts the two expressions.
\<close>

theorem had_changed_one_value:
  "had_changed readonly_ctx (empty_store(''k1'' := VInt 1))
     [VBool True, VInt 1, VBool True, VStr ''k'']
     = (empty_store(''k1'' := VInt 1), Ret (VBool False) True) \<and>
   had_changed_val field_refs [0, 1] = None"
  by (simp add: had_changed_def as_string_def readonly_ctx_def Itoa_1
        had_changed_val_def field_refs_def)

text \<open>What each function returns around its \<open>PutState\<close> calls.\<close>

lemma latest_put_any:
  assumes "length args = 3 \<or> length args = 4" "args ! (length args - 1) = VStr key"
    "args ! (length args - 2) = VBool True" "args ! 0 \<noteq> VNil"
    "PutState ctx s key (args ! 0) = (s', perr)"
  shows "latest ctx s args = (s', Ret (args ! 0) True)"
  using assms by (auto simp add: latest_def as_string_def Let_def)

lemma changed_col_put_fails:
  assumes "2 \<le> length args" "args ! 0 = VBool ign" "\<not> (ign \<and> args ! 1 = VNil)"
    "args ! (length args - 2) = VBool True" "args ! (length args - 1) = VStr key"
    "GetState ctx s key = (lv, None)" "args ! 1 \<noteq> lv"
    "PutState ctx s key (args ! 1) = (s', Some e)"
  shows "changed_col ctx s args = (s', Ret (VErr e) False)"
  using assms
  by (auto simp add: changed_col_def changed_col_compare_def at_def index_def as_string_def
        nat_diff_distrib)

lemma had_changed_put_fails:
  assumes "4 \<le> length args" "args ! 0 = VBool ign" "\<not> (ign \<and> args ! 1 = VNil)"
       "args ! (length args - 2) = VBool True" "args ! (length args - 1) = VStr key"
       "GetState ctx s (key @ ''1'') = (lv, None)" "args ! 1 \<noteq> lv"
       "PutState ctx s (key @ ''1'') (args ! 1) = (s', Some e)"
  shows "had_changed ctx s args =
            (s', Ret (VErr (Errorf ''error setting state for %s: %v''
                              [VStr (key @ ''1''), VErr e])) False)"
proof -
  have l: "(1::int) < int (length args) - 2" using assms(1) by simp
  have "had_changed_loop ctx args key ign (int (length args) - 2) 1 False s =
          (s', Ret (VErr (Errorf ''error setting state for %s: %v''
                              [VStr (key @ ''1''), VErr e])) False)"
    using assms l
    by (subst had_changed_loop.simps) (auto simp add: Itoa_1 Let_def simp del: had_changed_loop.simps)
  then show ?thesis
    using assms by (simp add: had_changed_def as_string_def Let_def del: had_changed_loop.simps)
qed

lemma lag_create_put_fails:
  assumes len: "3 \<le> length args" "length args \<le> 6"
    and key: "args ! (length args - 1) = VStr key"
    and valid: "is_bool (args ! (length args - 2))"
    and get: "GetState ctx s key = (VNil, None)"
    and sz: "if 4 \<le> length args then ToInt ctx (args ! 1) = Inr sz else sz = 1"
    and fourth: "length args = 6 \<longrightarrow> is_bool (args ! 3)"
    and put: "PutState ctx s key (VRing (fresh h)) = (s', Some e)"
  shows "lag ctx (s, h) args =
           ((s', store_rq (snd (alloc h (newRingqueue sz))) (fresh h)
                   (fill (newRingqueue sz) (if 5 \<le> length args then args ! 2 else VNil))),
            Ret (VErr (Errorf ''error setting state for %s: %v'' [VStr key, VErr e])) False)"
proof -
  obtain vd where v: "args ! (length args - 2) = VBool vd"
    using valid by (cases "args ! (length args - 2)") (simp_all add: is_bool_def)
  have st: "lag_state ctx (s, h) args key VNil vd sz
              (if 5 \<le> length args then args ! 2 else VNil) ign' =
           ((s', store_rq (snd (alloc h (newRingqueue sz))) (fresh h)
                   (fill (newRingqueue sz) (if 5 \<le> length args then args ! 2 else VNil))),
            Ret (VErr (Errorf ''error setting state for %s: %v'' [VStr key, VErr e])) False)"
    for ign'
    using put by (simp add: lag_state_def alloc_def Let_def)
  have opts: "lag_opts ctx (s, h) args (int (length args) - 2) key VNil vd =
           ((s', store_rq (snd (alloc h (newRingqueue sz))) (fresh h)
                   (fill (newRingqueue sz) (if 5 \<le> length args then args ! 2 else VNil))),
            Ret (VErr (Errorf ''error setting state for %s: %v'' [VStr key, VErr e])) False)"
  proof (cases "length args = 6")
    case True
    then obtain b where b: "args ! 3 = VBool b"
      using fourth by (cases "args ! 3") (simp_all add: is_bool_def)
    show ?thesis using True b sz st [of b] by (simp add: lag_opts_def Let_def)
  next
    case False
    then show ?thesis
      using len sz st [of True] by (auto simp add: lag_opts_def Let_def split: if_splits)
  qed
  show ?thesis
    using len key get v opts by (simp add: lag_def as_string_def Let_def)
qed

lemma lag_advance_put_fails:
  assumes len: "3 \<le> length args" "length args \<le> 6"
    and key: "args ! (length args - 1) = VStr key"
    and valid: "args ! (length args - 2) = VBool True"
    and get: "GetState ctx s key = (VRing p, None)"
    and cell: "cells h p = Some rq"
    and sz: "4 \<le> length args \<longrightarrow> ToInt ctx (args ! 1) = Inr sz"
    and fourth: "if length args = 6 then args ! 3 = VBool ign else ign"
    and adv: "\<not> ign \<or> args ! 0 \<noteq> VNil"
    and put: "PutState ctx s key (VRing p) = (s', Some e)"
  shows "lag ctx (s, h) args =
           ((s', store_rq h p (snd (append_rq (snd (fetch rq)) (args ! 0)))),
            Ret (VErr (Errorf ''error setting state for %s: %v'' [VStr key, VErr e])) False)"
proof -
  have st: "lag_state ctx (s, h) args key (VRing p) True sz' dft ign =
           ((s', store_rq h p (snd (append_rq (snd (fetch rq)) (args ! 0)))),
            Ret (VErr (Errorf ''error setting state for %s: %v'' [VStr key, VErr e])) False)"
    for sz' dft
    using put adv cell by (auto simp add: lag_state_def lag_emit_def Let_def split: prod.splits)
  have opts: "lag_opts ctx (s, h) args (int (length args) - 2) key (VRing p) True =
           ((s', store_rq h p (snd (append_rq (snd (fetch rq)) (args ! 0)))),
            Ret (VErr (Errorf ''error setting state for %s: %v'' [VStr key, VErr e])) False)"
  proof (cases "length args = 6")
    case True
    then show ?thesis using sz fourth st by (simp add: lag_opts_def Let_def)
  next
    case False
    then show ?thesis
      using len sz fourth st by (auto simp add: lag_opts_def Let_def split: if_splits)
  qed
  show ?thesis
    using len key get valid opts by (simp add: lag_def as_string_def Let_def)
qed

text \<open>
  C10. A call of \<open>latest\<close> with validity true and a non-nil value returns the value
  with the flag true whatever \<open>PutState\<close> returned, error or not. The other three
  functions return \<open>(error, false)\<close> when a \<open>PutState\<close> of theirs fails: \<open>changed_col\<close>
  on storing the changed value, \<open>had_changed\<close> on storing a changed tracked value
  (here the first), \<open>lag\<close> on storing the buffer it has just created and on storing the
  buffer it has just advanced.
\<close>

theorem latest_discards_put_error:
  "((length args = 3 \<or> length args = 4) \<and> args ! (length args - 1) = VStr key \<and>
    args ! (length args - 2) = VBool True \<and> args ! 0 \<noteq> VNil \<and>
    PutState ctx s key (args ! 0) = (s', perr)
      \<longrightarrow> latest ctx s args = (s', Ret (args ! 0) True)) \<and>
   (2 \<le> length args \<and> args ! 0 = VBool ign \<and> \<not> (ign \<and> args ! 1 = VNil) \<and>
    args ! (length args - 2) = VBool True \<and> args ! (length args - 1) = VStr key \<and>
    GetState ctx s key = (lv, None) \<and> args ! 1 \<noteq> lv \<and>
    PutState ctx s key (args ! 1) = (s', Some e)
      \<longrightarrow> changed_col ctx s args = (s', Ret (VErr e) False)) \<and>
   (4 \<le> length args \<and> args ! 0 = VBool ign \<and> \<not> (ign \<and> args ! 1 = VNil) \<and>
    args ! (length args - 2) = VBool True \<and> args ! (length args - 1) = VStr key \<and>
    GetState ctx s (key @ ''1'') = (lv, None) \<and> args ! 1 \<noteq> lv \<and>
    PutState ctx s (key @ ''1'') (args ! 1) = (s', Some e)
      \<longrightarrow> had_changed ctx s args =
            (s', Ret (VErr (Errorf ''error setting state for %s: %v''
                              [VStr (key @ ''1''), VErr e])) False)) \<and>
   (3 \<le> length args \<and> length args \<le> 6 \<and> args ! (length args - 1) = VStr key \<and>
    is_bool (args ! (length args - 2)) \<and> GetState ctx s key = (VNil, None) \<and>
    (if 4 \<le> length args then ToInt ctx (args ! 1) = Inr sz else sz = 1) \<and>
    (length args = 6 \<longrightarrow> is_bool (args ! 3)) \<and>
    PutState ctx s key (VRing (fresh h)) = (s', Some e)
      \<longrightarrow> lag ctx (s, h) args =
            ((s', store_rq (snd (alloc h (newRingqueue sz))) (fresh h)
                    (fill (newRingqueue sz) (if 5 \<le> length args then args ! 2 else VNil))),
             Ret (VErr (Errorf ''error setting state for %s: %v'' [VStr key, VErr e])) False)) \<and>
   (3 \<le> length args \<and> length args \<le> 6 \<and> args ! (length args - 1) = VStr key \<and>
    args ! (length args - 2) = VBool True \<and> GetState ctx s key = (VRing p, None) \<and>
    cells h p = Some rq \<and>
    (4 \<le> length args \<longrightarrow> ToInt ctx (args ! 1) = Inr sz) \<and>
    (if length args = 6 then args ! 3 = VBool ign else ign) \<and>
    (\<not> ign \<or> args ! 0 \<noteq> VNil) \<and>
    PutState ctx s key (VRing p) = (s', Some e)
      \<longrightarrow> lag ctx (s, h) args =
            ((s', store_rq h p (snd (append_rq (snd (fetch rq)) (args ! 0)))),
             Ret (VErr (Errorf ''error setting state for %s: %v'' [VStr key, VErr e])) False))"
  using latest_put_any [of args key ctx s s' perr]
    changed_col_put_fails [of args ign key ctx s lv s' e]
    had_changed_put_fails [of args ign key ctx s lv s' e]
    lag_create_put_fails [of args key ctx s sz h s' e]
    lag_advance_put_fails [of args key ctx s p h rq sz ign s' e]
  by blast

theorem latest_discards_put_error_witness:
  "latest readonly_ctx empty_store [VInt 7, VBool True, VStr ''k'']
     = (empty_store, Ret (VInt 7) True) \<and>
   changed_col readonly_ctx empty_store [VBool False, VInt 5, VBool True, VStr ''k'']
     = (empty_store, Ret (VErr (ErrorsNew ''read-only store'')) False) \<and>
   had_changed readonly_ctx empty_store [VBool False, VInt 5, VBool True, VStr ''k'']
     = (empty_store,
        Ret (VErr (Errorf ''error setting state for %s: %v''
                     [VStr ''k1'', VErr (ErrorsNew ''read-only store'')])) False) \<and>
   snd (lag readonly_ctx (empty_store, empty_heap) [VInt 5, VBool True, VStr ''k''])
     = Ret (VErr (Errorf ''error setting state for %s: %v''
                    [VStr ''k'', VErr (ErrorsNew ''read-only store'')])) False \<and>
   lag readonly_ctx (empty_store(''k'' := VRing 0), one_buffer) [VInt 5, VBool True, VStr ''k'']
     = ((empty_store(''k'' := VRing 0), store_rq one_buffer 0 (Ringqueue [VInt 5] 1)),
        Ret (VErr (Errorf ''error setting state for %s: %v''
                     [VStr ''k'', VErr (ErrorsNew ''read-only store'')])) False)"
proof -
  have a: "latest readonly_ctx empty_store [VInt 7, VBool True, VStr ''k'']
             = (empty_store, Ret (VInt 7) True)"
    using latest_discards_put_error
            [where args = "[VInt 7, VBool True, VStr ''k'']" and key = "''k''"
               and ctx = readonly_ctx and s = empty_store and s' = empty_store
               and perr = "Some (ErrorsNew ''read-only store'')"]
    by (simp add: readonly_ctx_def)
  have b: "changed_col readonly_ctx empty_store [VBool False, VInt 5, VBool True, VStr ''k'']
             = (empty_store, Ret (VErr (ErrorsNew ''read-only store'')) False)"
    using latest_discards_put_error
            [where args = "[VBool False, VInt 5, VBool True, VStr ''k'']" and key = "''k''"
               and ctx = readonly_ctx and s = empty_store and s' = empty_store
               and ign = False and lv = VNil and e = "ErrorsNew ''read-only store''"]
    by (simp add: readonly_ctx_def empty_store_def)
  have c: "had_changed readonly_ctx empty_store [VBool False, VInt 5, VBool True, VStr ''k'']
             = (empty_store,
                Ret (VErr (Errorf ''error setting state for %s: %v''
                             [VStr ''k1'', VErr (ErrorsNew ''read-only store'')])) False)"
    using latest_discards_put_error
            [where args = "[VBool False, VInt 5, VBool True, VStr ''k'']" and key = "''k''"
               and ctx = readonly_ctx and s = empty_store and s' = empty_store
               and ign = False and lv = VNil and e = "ErrorsNew ''read-only store''"]
    by (simp add: readonly_ctx_def empty_store_def)
  have d: "snd (lag readonly_ctx (empty_store, empty_heap) [VInt 5, VBool True, VStr ''k''])
             = Ret (VErr (Errorf ''error setting state for %s: %v''
                            [VStr ''k'', VErr (ErrorsNew ''read-only store'')])) False"
    using latest_discards_put_error
            [where args = "[VInt 5, VBool True, VStr ''k'']" and key = "''k''"
               and ctx = readonly_ctx and s = empty_store and s' = empty_store
               and h = empty_heap and sz = 1 and e = "ErrorsNew ''read-only store''"]
    by (simp add: readonly_ctx_def empty_store_def is_bool_def)
  have e: "lag readonly_ctx (empty_store(''k'' := VRing 0), one_buffer)
                 [VInt 5, VBool True, VStr ''k'']
             = ((empty_store(''k'' := VRing 0), store_rq one_buffer 0 (Ringqueue [VInt 5] 1)),
                Ret (VErr (Errorf ''error setting state for %s: %v''
                             [VStr ''k'', VErr (ErrorsNew ''read-only store'')])) False)"
    using latest_discards_put_error
            [where args = "[VInt 5, VBool True, VStr ''k'']" and key = "''k''"
               and ctx = readonly_ctx
               and s = "empty_store(''k'' := VRing 0)" and s' = "empty_store(''k'' := VRing 0)"
               and h = one_buffer and p = 0
               and rq = "Ringqueue [VInt 0] 1" and ign = True
               and e = "ErrorsNew ''read-only store''"]
    by (simp add: readonly_ctx_def one_buffer_def fetch_def append_rq_def)
  from a b c d e show ?thesis by simp
qed

section \<open>Properties of the sink node\<close>

text \<open>What \<open>ingest\<close> leaves alone.\<close>

lemma ingest_keeps:
  assumes "ingest env d n = (r, n1)"
  shows "sink n1 = sink n" and "resendOut n1 = resendOut n"
    and "resendInterval n1 = resendInterval n" and "calls n1 = calls n"
    and "cancelled n1 = cancelled n" and "tickers n1 = tickers n" and "name n1 = name n"
    and "phase n1 = phase n"
  using assms
  by (auto simp add: ingest_def logf_def DrainError_def Let_def
        split: prod.splits val.splits if_splits)

text \<open>One iteration of the main loop on a record whose collect fails.\<close>

lemma on_input_not_io:
  assumes "retry_config n" "fst (ingest env d n) = (data, False)"
    "doCollect env (sink n) data = (Some e, sk)" "\<not> IsIOError env e"
  shows "phase (on_input env d pk n) = Idle"
    and "sink (on_input env d pk n) = sk"
    and "calls (on_input env d pk n) =
           calls n @ [OnProcessStart data, DoCollect data, OnError e, OnProcessEnd, SetBufferLength]"
proof -
  obtain n1 where i: "ingest env d n = ((data, False), n1)"
    using assms(2) by (cases "ingest env d n") auto
  note k = ingest_keeps [OF i]
  show "phase (on_input env d pk n) = Idle"
    and "sink (on_input env d pk n) = sk"
    and "calls (on_input env d pk n) =
           calls n @ [OnProcessStart data, DoCollect data, OnError e, OnProcessEnd, SetBufferLength]"
    using assms i k
    by (simp_all add: on_input_def collect_def called_def process_end_def logf_def
          retry_config_def)
qed

lemma on_input_io:
  assumes "retry_config n" "fst (ingest env d n) = (data, False)"
    "doCollect env (sink n) data = (Some e, sk)" "IsIOError env e"
  shows "phase (on_input env d pk n) = Retrying data e"
    and "sink (on_input env d pk n) = sk"
    and "calls (on_input env d pk n) =
           calls n @ [OnProcessStart data, DoCollect data, OnError e, GetTicker (resendInterval n)]"
    and "retry_config (on_input env d pk n)"
proof -
  obtain n1 where i: "ingest env d n = ((data, False), n1)"
    using assms(2) by (cases "ingest env d n") auto
  note k = ingest_keeps [OF i]
  show "phase (on_input env d pk n) = Retrying data e"
    and "sink (on_input env d pk n) = sk"
    and "calls (on_input env d pk n) =
           calls n @ [OnProcessStart data, DoCollect data, OnError e, GetTicker (resendInterval n)]"
    and "retry_config (on_input env d pk n)"
    using assms i k
    by (simp_all add: on_input_def collect_def called_def process_end_def logf_def
          retry_config_def retry_check_def)
qed

text \<open>One tick of the retry loop.\<close>

lemma on_tick_result:
  assumes "doCollect env (sink n) data = (r, sk)"
  shows "sink (on_tick env data n) = sk"
    and "r = None \<Longrightarrow> phase (on_tick env data n) = Idle \<and>
           calls (on_tick env data n) =
             calls n @ [DoCollect data, SetBufferLength, OnSend data, OnProcessEnd, SetBufferLength]"
    and "r = Some e \<Longrightarrow> IsIOError env e \<Longrightarrow> phase (on_tick env data n) = Retrying data e \<and>
           calls (on_tick env data n) = calls n @ [DoCollect data, SetBufferLength]"
    and "r = Some e \<Longrightarrow> \<not> IsIOError env e \<Longrightarrow> phase (on_tick env data n) = Idle \<and>
           calls (on_tick env data n) =
             calls n @ [DoCollect data, SetBufferLength, OnProcessEnd, SetBufferLength]"
  using assms
  by (auto simp add: on_tick_def collect_def called_def process_end_def logf_def retry_check_def
        split: option.splits)

lemma on_return_result:
  "phase (on_return n) = Exited"
  "sink (on_return n) = sink n"
  "calls (on_return n) = calls n @ replicate (tickers n) TickerStop @ [SinkClose, NodeClose]"
  by (simp_all add: on_return_def)

lemma exited_no_step: "phase n = Exited \<Longrightarrow> exec_step env ev n = None"
  by (simp add: exec_step_def)

lemma exited_no_run: "phase n = Exited \<Longrightarrow> evs \<noteq> [] \<Longrightarrow> exec_run env evs n = None"
  by (cases evs) (simp_all add: exited_no_step)

lemma retry_leaves:
  assumes "phase n = Retrying data prev" "exec_step env ev n = Some n'"
    "\<forall>e. phase n' \<noteq> Retrying data e"
  shows "(ev = SelDone \<and> cancelled n \<and> phase n' = Exited) \<or>
         (ev = SelTick \<and> phase n' = Idle \<and>
          (case fst (doCollect env (sink n) data) of None \<Rightarrow> True | Some e \<Rightarrow> \<not> IsIOError env e))"
proof (cases ev)
  case Cancel
  with assms show ?thesis by (auto simp add: exec_step_def)
next
  case SelDone
  with assms show ?thesis by (auto simp add: exec_step_def on_return_def split: if_splits)
next
  case (SelInput d pk)
  with assms show ?thesis by (simp add: exec_step_def)
next
  case SelTick
  obtain r sk where c: "doCollect env (sink n) data = (r, sk)" by (cases "doCollect env (sink n) data")
  from SelTick assms have n': "n' = on_tick env data n" by (simp add: exec_step_def)
  show ?thesis
  proof (cases r)
    case None
    with on_tick_result(2) [OF c] SelTick n' c show ?thesis by simp
  next
    case (Some e)
    show ?thesis
    proof (cases "IsIOError env e")
      case True
      with on_tick_result(3) [OF c Some] assms(3) n' show ?thesis by simp
    next
      case False
      with on_tick_result(4) [OF c Some] SelTick n' c Some show ?thesis by simp
    qed
  qed
qed

text \<open>
  C7, as the code has it. With a positive resend interval and no resend channel: a
  record whose collect fails with an error that is not of the I/O class is dropped
  after that one attempt and the node waits for the next record; a record whose
  collect fails with an I/O error puts the node in the retry loop. There every tick
  calls collect again, and the node stays in the loop exactly while collect returns an
  I/O error. The loop is left only by a tick whose collect succeeds or fails with
  another kind of error, or by the \<open>ctx.Done()\<close> branch of its \<open>select\<close>. When that
  branch is taken the whole goroutine ends and takes no further step on any event.
  The cancellation by itself leaves the node in the retry loop, where the tick and
  \<open>ctx.Done()\<close> can both be taken.
\<close>

theorem retry_only_io_errors:
  "(phase n = Idle \<and> retry_config n \<and> fst (ingest env d n) = (data, False) \<and>
    doCollect env (sink n) data = (Some e, sk) \<and> \<not> IsIOError env e
      \<longrightarrow> (\<exists>n'. exec_step env (SelInput d pk) n = Some n' \<and> phase n' = Idle \<and> sink n' = sk \<and>
                calls n' = calls n @
                  [OnProcessStart data, DoCollect data, OnError e, OnProcessEnd, SetBufferLength])) \<and>
   (phase n = Idle \<and> retry_config n \<and> fst (ingest env d n) = (data, False) \<and>
    doCollect env (sink n) data = (Some e, sk) \<and> IsIOError env e
      \<longrightarrow> (\<exists>n'. exec_step env (SelInput d pk) n = Some n' \<and> phase n' = Retrying data e \<and>
                sink n' = sk \<and>
                calls n' = calls n @
                  [OnProcessStart data, DoCollect data, OnError e, GetTicker (resendInterval n)])) \<and>
   (phase n = Retrying data prev \<and> doCollect env (sink n) data = (r, sk)
      \<longrightarrow> (\<exists>n'. exec_step env SelTick n = Some n' \<and> sink n' = sk \<and>
                (case r of
                   None \<Rightarrow>
                     phase n' = Idle \<and>
                     calls n' = calls n @
                       [DoCollect data, SetBufferLength, OnSend data, OnProcessEnd, SetBufferLength]
                 | Some e' \<Rightarrow>
                     if IsIOError env e'
                     then phase n' = Retrying data e' \<and>
                          calls n' = calls n @ [DoCollect data, SetBufferLength]
                     else phase n' = Idle \<and>
                          calls n' = calls n @
                            [DoCollect data, SetBufferLength, OnProcessEnd, SetBufferLength]))) \<and>
   (phase n = Retrying data prev \<and> exec_step env ev n = Some m \<and> (\<forall>e'. phase m \<noteq> Retrying data e')
      \<longrightarrow> (ev = SelDone \<and> cancelled n \<and> phase m = Exited) \<or>
          (ev = SelTick \<and> phase m = Idle \<and>
           (case fst (doCollect env (sink n) data) of
              None \<Rightarrow> True
            | Some e' \<Rightarrow> \<not> IsIOError env e'))) \<and>
   (phase n = Retrying data prev \<and> cancelled n
      \<longrightarrow> (\<exists>n'. exec_step env SelDone n = Some n' \<and> phase n' = Exited \<and> sink n' = sink n \<and>
                calls n' = calls n @ replicate (tickers n) TickerStop @ [SinkClose, NodeClose] \<and>
                (\<forall>ev'. exec_step env ev' n' = None) \<and>
                (\<forall>evs. evs \<noteq> [] \<longrightarrow> exec_run env evs n' = None))) \<and>
   (phase n = Retrying data prev
      \<longrightarrow> exec_step env Cancel n = Some (n\<lparr>cancelled := True\<rparr>) \<and>
          exec_step env SelTick (n\<lparr>cancelled := True\<rparr>) \<noteq> None \<and>
          exec_step env SelDone (n\<lparr>cancelled := True\<rparr>) \<noteq> None)"
proof -
  have a: "\<exists>n'. exec_step env (SelInput d pk) n = Some n' \<and> phase n' = Idle \<and> sink n' = sk \<and>
                calls n' = calls n @
                  [OnProcessStart data, DoCollect data, OnError e, OnProcessEnd, SetBufferLength]"
    if "phase n = Idle" "retry_config n" "fst (ingest env d n) = (data, False)"
       "doCollect env (sink n) data = (Some e, sk)" "\<not> IsIOError env e"
    using that on_input_not_io [OF that(2-5), where pk = pk] by (simp add: exec_step_def)
  have b: "\<exists>n'. exec_step env (SelInput d pk) n = Some n' \<and> phase n' = Retrying data e \<and>
                sink n' = sk \<and>
                calls n' = calls n @
                  [OnProcessStart data, DoCollect data, OnError e, GetTicker (resendInterval n)]"
    if "phase n = Idle" "retry_config n" "fst (ingest env d n) = (data, False)"
       "doCollect env (sink n) data = (Some e, sk)" "IsIOError env e"
    using that on_input_io [OF that(2-5), where pk = pk] by (simp add: exec_step_def)
  have c: "\<exists>n'. exec_step env SelTick n = Some n' \<and> sink n' = sk \<and>
                (case r of
                   None \<Rightarrow>
                     phase n' = Idle \<and>
                     calls n' = calls n @
                       [DoCollect data, SetBufferLength, OnSend data, OnProcessEnd, SetBufferLength]
                 | Some e' \<Rightarrow>
                     if IsIOError env e'
                     then phase n' = Retrying data e' \<and>
                          calls n' = calls n @ [DoCollect data, SetBufferLength]
                     else phase n' = Idle \<and>
                          calls n' = calls n @
                            [DoCollect data, SetBufferLength, OnProcessEnd, SetBufferLength])"
    if "phase n = Retrying data prev" "doCollect env (sink n) data = (r, sk)"
    using that(1) on_tick_result [OF that(2)]
    by (auto simp add: exec_step_def split: option.splits)
  have d: "(ev = SelDone \<and> cancelled n \<and> phase m = Exited) \<or>
          (ev = SelTick \<and> phase m = Idle \<and>
           (case fst (doCollect env (sink n) data) of
              None \<Rightarrow> True
            | Some e' \<Rightarrow> \<not> IsIOError env e'))"
    if "phase n = Retrying data prev" "exec_step env ev n = Some m" "\<forall>e'. phase m \<noteq> Retrying data e'"
    using retry_leaves [OF that] .
  have e: "\<exists>n'. exec_step env SelDone n = Some n' \<and> phase n' = Exited \<and> sink n' = sink n \<and>
                calls n' = calls n @ replicate (tickers n) TickerStop @ [SinkClose, NodeClose] \<and>
                (\<forall>ev'. exec_step env ev' n' = None) \<and>
                (\<forall>evs. evs \<noteq> [] \<longrightarrow> exec_run env evs n' = None)"
    if "phase n = Retrying data prev" "cancelled n"
    using that
    by (simp add: exec_step_def on_return_result logf_def exited_no_step exited_no_run)
  have f: "exec_step env Cancel n = Some (n\<lparr>cancelled := True\<rparr>) \<and>
          exec_step env SelTick (n\<lparr>cancelled := True\<rparr>) \<noteq> None \<and>
          exec_step env SelDone (n\<lparr>cancelled := True\<rparr>) \<noteq> None"
    if "phase n = Retrying data prev"
    using that by (simp add: exec_step_def)
  from a b c d e f show ?thesis by blast
qed

theorem retry_only_io_errors_witness:
  "(\<exists>n'. exec_step flaky_env (SelInput (VOther 0) True) waiting_node = Some n' \<and>
          phase n' = Idle \<and> sink n' = 1 \<and>
          calls n' = [OnProcessStart (VOther 0), DoCollect (VOther 0),
                      OnError (ErrorsNew ''expect tuple data type''), OnProcessEnd,
                      SetBufferLength]) \<and>
   (\<exists>n'. exec_step flaky_env (SelInput (VInt 1) True) waiting_node = Some n' \<and>
          phase n' = Retrying (VInt 1) (ErrorsNew ''io timeout'') \<and> sink n' = 1 \<and>
          calls n' = [OnProcessStart (VInt 1), DoCollect (VInt 1),
                      OnError (ErrorsNew ''io timeout''), GetTicker 100]) \<and>
   (\<exists>n'. exec_step flaky_env SelTick retrying_node = Some n' \<and> sink n' = 2 \<and>
          phase n' = Retrying (VInt 1) (ErrorsNew ''io timeout'') \<and>
          calls n' = [DoCollect (VInt 1), SetBufferLength]) \<and>
   (\<exists>m. exec_step flaky_env SelTick (retrying_node\<lparr>sink := 2\<rparr>) = Some m \<and> phase m = Idle) \<and>
   (\<exists>n'. exec_step flaky_env SelDone (retrying_node\<lparr>cancelled := True\<rparr>) = Some n' \<and>
          phase n' = Exited \<and> calls n' = [TickerStop, SinkClose, NodeClose] \<and>
          exec_run flaky_env [SelInput (VInt 2) True] n' = None) \<and>
   exec_step flaky_env Cancel retrying_node = Some (retrying_node\<lparr>cancelled := True\<rparr>)"
proof -
  have a: "\<exists>n'. exec_step flaky_env (SelInput (VOther 0) True) waiting_node = Some n' \<and>
          phase n' = Idle \<and> sink n' = 1 \<and>
          calls n' = [OnProcessStart (VOther 0), DoCollect (VOther 0),
                      OnError (ErrorsNew ''expect tuple data type''), OnProcessEnd,
                      SetBufferLength]"
    using retry_only_io_errors
            [where n = waiting_node and env = flaky_env and d = "VOther 0" and data = "VOther 0"
               and e = "ErrorsNew ''expect tuple data type''" and sk = 1 and pk = True]
    by (simp add: waiting_node_def flaky_env_def retry_config_def ingest_def logf_def)
  have b: "\<exists>n'. exec_step flaky_env (SelInput (VInt 1) True) waiting_node = Some n' \<and>
          phase n' = Retrying (VInt 1) (ErrorsNew ''io timeout'') \<and> sink n' = 1 \<and>
          calls n' = [OnProcessStart (VInt 1), DoCollect (VInt 1),
                      OnError (ErrorsNew ''io timeout''), GetTicker 100]"
    using retry_only_io_errors
            [where n = waiting_node and env = flaky_env and d = "VInt 1" and data = "VInt 1"
               and e = "ErrorsNew ''io timeout''" and sk = 1 and pk = True]
    by (simp add: waiting_node_def flaky_env_def retry_config_def ingest_def logf_def)
  have c: "\<exists>n'. exec_step flaky_env SelTick retrying_node = Some n' \<and> sink n' = 2 \<and>
          phase n' = Retrying (VInt 1) (ErrorsNew ''io timeout'') \<and>
          calls n' = [DoCollect (VInt 1), SetBufferLength]"
    using retry_only_io_errors
            [where n = retrying_node and env = flaky_env and data = "VInt 1"
               and prev = "ErrorsNew ''io timeout''" and r = "Some (ErrorsNew ''io timeout'')"
               and sk = 2]
    by (simp add: retrying_node_def waiting_node_def flaky_env_def)
  have d: "\<exists>m. exec_step flaky_env SelTick (retrying_node\<lparr>sink := 2\<rparr>) = Some m \<and> phase m = Idle"
    using retry_only_io_errors
            [where n = "retrying_node\<lparr>sink := 2\<rparr>" and env = flaky_env and data = "VInt 1"
               and prev = "ErrorsNew ''io timeout''" and ev = SelTick
               and m = "on_tick flaky_env (VInt 1) (retrying_node\<lparr>sink := 2\<rparr>)"]
    by (simp add: retrying_node_def waiting_node_def flaky_env_def exec_step_def on_tick_def
          collect_def called_def retry_check_def process_end_def logf_def)
  have e: "\<exists>n'. exec_step flaky_env SelDone (retrying_node\<lparr>cancelled := True\<rparr>) = Some n' \<and>
          phase n' = Exited \<and> calls n' = [TickerStop, SinkClose, NodeClose] \<and>
          exec_run flaky_env [SelInput (VInt 2) True] n' = None"
  proof -
    have "phase (retrying_node\<lparr>cancelled := True\<rparr>) = Retrying (VInt 1) (ErrorsNew ''io timeout'') \<and>
          cancelled (retrying_node\<lparr>cancelled := True\<rparr>)"
      by (simp add: retrying_node_def waiting_node_def)
    with retry_only_io_errors
           [where n = "retrying_node\<lparr>cancelled := True\<rparr>" and env = flaky_env
              and data = "VInt 1" and prev = "ErrorsNew ''io timeout''"]
    obtain n' where n': "exec_step flaky_env SelDone (retrying_node\<lparr>cancelled := True\<rparr>) = Some n'"
        "phase n' = Exited"
        "calls n' = calls (retrying_node\<lparr>cancelled := True\<rparr>) @
                    replicate (tickers (retrying_node\<lparr>cancelled := True\<rparr>)) TickerStop @
                    [SinkClose, NodeClose]"
        "\<forall>evs. evs \<noteq> [] \<longrightarrow> exec_run flaky_env evs n' = None"
      by blast
    from n'(4) have "exec_run flaky_env [SelInput (VInt 2) True] n' = None" by blast
    with n'(1-3) show ?thesis by (simp add: retrying_node_def waiting_node_def)
  qed
  have f: "exec_step flaky_env Cancel retrying_node = Some (retrying_node\<lparr>cancelled := True\<rparr>)"
    using retry_only_io_errors
            [where n = retrying_node and env = flaky_env and data = "VInt 1"
               and prev = "ErrorsNew ''io timeout''"]
    by (simp add: retrying_node_def waiting_node_def)
  from a b c d e f show ?thesis by blast
qed

text \<open>
  C7 as stated fails in its last clause: a cancellation during the retry does not by
  itself end the loop. After the cancellation the \<open>select\<close> of the retry loop may
  take two ticks, the second collect succeeds, and the \<open>select\<close> of the main loop
  may take the next record: the node, cancelled, has collected and sent record 2 and
  waits for more.
\<close>

theorem cancelled_retry_goes_on:
  "map_option phase
     (exec_run flaky_env [Cancel, SelTick, SelTick, SelInput (VInt 2) True] retrying_node)
     = Some Idle \<and>
   map_option cancelled
     (exec_run flaky_env [Cancel, SelTick, SelTick, SelInput (VInt 2) True] retrying_node)
     = Some True \<and>
   map_option calls
     (exec_run flaky_env [Cancel, SelTick, SelTick, SelInput (VInt 2) True] retrying_node)
     = Some [DoCollect (VInt 1), SetBufferLength,
             DoCollect (VInt 1), SetBufferLength, OnSend (VInt 1), OnProcessEnd, SetBufferLength,
             OnProcessStart (VInt 2), DoCollect (VInt 2), OnSend (VInt 2), OnProcessEnd,
             SetBufferLength]"
  by (simp add: exec_step_def on_tick_def on_input_def ingest_def collect_def called_def
        logf_def process_end_def retry_check_def retrying_node_def waiting_node_def
        flaky_env_def)


text \<open>A record that \<open>ingest\<close> marks as processed is not collected; any other is.\<close>

lemma on_input_processed:
  assumes "snd (fst (ingest env d n))"
  shows "on_input env d pk n = snd (ingest env d n)"
proof -
  obtain data n1 where i: "ingest env d n = ((data, True), n1)"
    using assms by (cases "ingest env d n") auto
  then show ?thesis by (simp add: on_input_def)
qed

lemma on_input_collects:
  assumes "fst (ingest env d n) = (data, False)"
  shows "\<exists>rest. calls (on_input env d pk n) = calls n @ OnProcessStart data # DoCollect data # rest"
proof -
  obtain n1 where i: "ingest env d n = ((data, False), n1)"
    using assms by (cases "ingest env d n") auto
  note k = ingest_keeps [OF i]
  obtain r sk where c: "doCollect env (sink n) data = (r, sk)"
    by (cases "doCollect env (sink n) data")
  show ?thesis
    using i k c
    by (auto simp add: on_input_def collect_def called_def process_end_def logf_def
          retry_check_def BroadcastCustomized_def resend_select_def Let_def
          split: option.splits)
qed

text \<open>
  C8. \<open>ingest\<close> classifies the item that \<open>preprocess\<close> hands on: an error goes on to
  the collect exactly when the node sends errors on, and is dropped otherwise; a
  watermark and a batch end are dropped; an end-of-stream marker is dropped after the
  counter has gone up by one, and exactly when the counter then equals the limit the
  end-of-stream error goes through \<open>DrainError\<close> to the control channel; any other
  item goes on unchanged. Only an end-of-stream marker touches the counter and the
  control channel. A dropped item reaches no collaborator; an item that goes on is
  collected.
\<close>

theorem ingest_classifies:
  "(preprocess env item0 = (VErr d, False)
      \<longrightarrow> fst (ingest env item0 n) = (if sendError n then (VErr d, False) else (VNil, True))) \<and>
   (preprocess env item0 = (VWatermark t, False) \<longrightarrow> fst (ingest env item0 n) = (VNil, True)) \<and>
   (preprocess env item0 = (VBatchEOF, False) \<longrightarrow> fst (ingest env item0 n) = (VNil, True)) \<and>
   (preprocess env item0 = (VEOF msg, False)
      \<longrightarrow> fst (ingest env item0 n) = (VNil, True) \<and>
          currentEof (snd (ingest env item0 n)) = currentEof n + 1 \<and>
          (logs (snd (ingest env item0 n)), ctrlCh (snd (ingest env item0 n))) =
            (let received = logs (logf LvDebug ''%s_%d receive %v''
                                    [VStr (opId n), VInt (instanceId n), item0] n)
             in if eoflimit n = currentEof n + 1
                then DrainError (caller_ingest env) True (Some (NewEOF msg)) received (ctrlCh n)
                else (received, ctrlCh n))) \<and>
   (preprocess env item0 = (item, False) \<and> plain_item item
      \<longrightarrow> fst (ingest env item0 n) = (item, False)) \<and>
   (preprocess env item0 = (item, False) \<and> (\<forall>m. item \<noteq> VEOF m)
      \<longrightarrow> currentEof (snd (ingest env item0 n)) = currentEof n \<and>
          ctrlCh (snd (ingest env item0 n)) = ctrlCh n) \<and>
   (snd (fst (ingest env item0 n)) \<longrightarrow> on_input env item0 pk n = snd (ingest env item0 n)) \<and>
   (fst (ingest env item0 n) = (data, False)
      \<longrightarrow> (\<exists>rest. calls (on_input env item0 pk n) =
                    calls n @ OnProcessStart data # DoCollect data # rest))"
proof -
  have a: "fst (ingest env item0 n) = (if sendError n then (VErr d, False) else (VNil, True))"
    if "preprocess env item0 = (VErr d, False)"
    using that by (simp add: ingest_def logf_def Let_def)
  have b: "fst (ingest env item0 n) = (VNil, True)" if "preprocess env item0 = (VWatermark t, False)"
    using that by (simp add: ingest_def Let_def)
  have c: "fst (ingest env item0 n) = (VNil, True)" if "preprocess env item0 = (VBatchEOF, False)"
    using that by (simp add: ingest_def Let_def)
  have d: "fst (ingest env item0 n) = (VNil, True) \<and>
          currentEof (snd (ingest env item0 n)) = currentEof n + 1 \<and>
          (logs (snd (ingest env item0 n)), ctrlCh (snd (ingest env item0 n))) =
            (let received = logs (logf LvDebug ''%s_%d receive %v''
                                    [VStr (opId n), VInt (instanceId n), item0] n)
             in if eoflimit n = currentEof n + 1
                then DrainError (caller_ingest env) True (Some (NewEOF msg)) received (ctrlCh n)
                else (received, ctrlCh n))"
    if "preprocess env item0 = (VEOF msg, False)"
    using that by (simp add: ingest_def logf_def Let_def split: prod.splits)
  have e: "fst (ingest env item0 n) = (item, False)"
    if "preprocess env item0 = (item, False)" "plain_item item"
    using that by (cases item) (simp_all add: ingest_def Let_def plain_item_def)
  have f: "currentEof (snd (ingest env item0 n)) = currentEof n \<and>
          ctrlCh (snd (ingest env item0 n)) = ctrlCh n"
    if "preprocess env item0 = (item, False)" "\<forall>m. item \<noteq> VEOF m"
    using that by (cases item) (simp_all add: ingest_def logf_def Let_def)
  from a b c d e f on_input_processed [of env item0 n pk] on_input_collects [of env item0 n data pk]
  show ?thesis by blast
qed

theorem ingest_classifies_witness:
  "fst (ingest flaky_env (VErr (ErrorsNew ''upstream'')) waiting_node)
     = (VErr (ErrorsNew ''upstream''), False) \<and>
   fst (ingest flaky_env (VErr (ErrorsNew ''upstream'')) (waiting_node\<lparr>sendError := False\<rparr>))
     = (VNil, True) \<and>
   fst (ingest flaky_env (VWatermark 5) waiting_node) = (VNil, True) \<and>
   fst (ingest flaky_env VBatchEOF waiting_node) = (VNil, True) \<and>
   (fst (ingest flaky_env (VEOF ''src'') waiting_node) = (VNil, True) \<and>
    currentEof (snd (ingest flaky_env (VEOF ''src'') waiting_node)) = 1 \<and>
    ctrlCh (snd (ingest flaky_env (VEOF ''src'') waiting_node)) = one_slot) \<and>
   (fst (ingest flaky_env (VEOF ''src'') (waiting_node\<lparr>currentEof := 1\<rparr>)) = (VNil, True) \<and>
    currentEof (snd (ingest flaky_env (VEOF ''src'') (waiting_node\<lparr>currentEof := 1\<rparr>))) = 2 \<and>
    ctrlCh (snd (ingest flaky_env (VEOF ''src'') (waiting_node\<lparr>currentEof := 1\<rparr>)))
      = \<lparr>ch_buf = [Some (NewEOF ''src'')], ch_cap = 1, ch_recvq = 0, ch_handed = []\<rparr>) \<and>
   fst (ingest flaky_env (VInt 7) waiting_node) = (VInt 7, False) \<and>
   currentEof (snd (ingest flaky_env (VInt 7) waiting_node)) = 0 \<and>
   calls (on_input flaky_env (VWatermark 5) True waiting_node) = [] \<and>
   (\<exists>rest. calls (on_input flaky_env (VInt 7) True waiting_node)
            = OnProcessStart (VInt 7) # DoCollect (VInt 7) # rest)"
proof -
  have p: "preprocess flaky_env v = (v, False)" for v
    by (simp add: flaky_env_def)
  have a: "fst (ingest flaky_env (VErr (ErrorsNew ''upstream'')) waiting_node)
             = (VErr (ErrorsNew ''upstream''), False)"
    using ingest_classifies
            [where env = flaky_env and n = waiting_node and d = "ErrorsNew ''upstream''"
               and ?item0.0 = "VErr (ErrorsNew ''upstream'')"]
    by (simp add: p waiting_node_def)
  have b: "fst (ingest flaky_env (VErr (ErrorsNew ''upstream'')) (waiting_node\<lparr>sendError := False\<rparr>))
             = (VNil, True)"
    using ingest_classifies
            [where env = flaky_env and n = "waiting_node\<lparr>sendError := False\<rparr>"
               and d = "ErrorsNew ''upstream''" and ?item0.0 = "VErr (ErrorsNew ''upstream'')"]
    by (simp add: p waiting_node_def)
  have c: "fst (ingest flaky_env (VWatermark 5) waiting_node) = (VNil, True)"
    using ingest_classifies
            [where env = flaky_env and n = waiting_node and t = 5 and ?item0.0 = "VWatermark 5"]
    by (simp add: p)
  have d: "fst (ingest flaky_env VBatchEOF waiting_node) = (VNil, True)"
    using ingest_classifies [where env = flaky_env and n = waiting_node and ?item0.0 = VBatchEOF]
    by (simp add: p)
  have e: "fst (ingest flaky_env (VEOF ''src'') waiting_node) = (VNil, True) \<and>
           currentEof (snd (ingest flaky_env (VEOF ''src'') waiting_node)) = 1 \<and>
           ctrlCh (snd (ingest flaky_env (VEOF ''src'') waiting_node)) = one_slot"
    using ingest_classifies
            [where env = flaky_env and n = waiting_node and msg = "''src''"
               and ?item0.0 = "VEOF ''src''"]
    by (simp add: p waiting_node_def Let_def)
  have f: "fst (ingest flaky_env (VEOF ''src'') (waiting_node\<lparr>currentEof := 1\<rparr>)) = (VNil, True) \<and>
           currentEof (snd (ingest flaky_env (VEOF ''src'') (waiting_node\<lparr>currentEof := 1\<rparr>))) = 2 \<and>
           ctrlCh (snd (ingest flaky_env (VEOF ''src'') (waiting_node\<lparr>currentEof := 1\<rparr>)))
             = \<lparr>ch_buf = [Some (NewEOF ''src'')], ch_cap = 1, ch_recvq = 0, ch_handed = []\<rparr>"
    using ingest_classifies
            [where env = flaky_env and n = "waiting_node\<lparr>currentEof := 1\<rparr>" and msg = "''src''"
               and ?item0.0 = "VEOF ''src''"]
    by (simp add: p waiting_node_def Let_def DrainError_def try_send_def send_ready_def
          do_send_def one_slot_def)
  have g: "fst (ingest flaky_env (VInt 7) waiting_node) = (VInt 7, False) \<and>
           currentEof (snd (ingest flaky_env (VInt 7) waiting_node)) = 0"
    using ingest_classifies
            [where env = flaky_env and n = waiting_node and item = "VInt 7"
               and ?item0.0 = "VInt 7"]
    by (simp add: p plain_item_def waiting_node_def)
  have h: "calls (on_input flaky_env (VWatermark 5) True waiting_node) = []"
    using c ingest_classifies
            [where env = flaky_env and n = waiting_node and pk = True
               and ?item0.0 = "VWatermark 5"]
          ingest_keeps(4) [OF surjective_pairing, of flaky_env "VWatermark 5" waiting_node]
    by (simp add: waiting_node_def)
  have i: "\<exists>rest. calls (on_input flaky_env (VInt 7) True waiting_node)
            = OnProcessStart (VInt 7) # DoCollect (VInt 7) # rest"
    using g ingest_classifies
            [where env = flaky_env and n = waiting_node and pk = True and data = "VInt 7"
               and ?item0.0 = "VInt 7"]
    by (simp add: waiting_node_def)
  from a b c d e f g h i show ?thesis by simp
qed

text \<open>One iteration of the main loop on a record whose collect fails, with a resend channel.\<close>

lemma on_input_resend:
  assumes "resendOut n = Some ch" "fst (ingest env d n) = (data, False)"
    "doCollect env (sink n) data = (Some e, sk)"
  shows "phase (on_input env d pk n) = Idle"
    and "send_ready ch \<and> (\<not> cancelled n \<or> pk) \<Longrightarrow>
           resendOut (on_input env d pk n) = Some (do_send ch data) \<and>
           calls (on_input env d pk n) =
             calls n @ [OnProcessStart data, DoCollect data, OnError e, OnProcessEnd, SetBufferLength]"
    and "\<not> (send_ready ch \<and> (\<not> cancelled n \<or> pk)) \<Longrightarrow>
           resendOut (on_input env d pk n) = Some ch \<and>
           calls (on_input env d pk n) =
             calls n @ [OnProcessStart data, DoCollect data, OnError e] @
             (if cancelled n then []
              else [OnError (Errorf ''buffer full, drop message from %s to resend sink''
                               [VStr (name n)])]) @
             [OnProcessEnd, SetBufferLength]"
proof -
  obtain n1 where i: "ingest env d n = ((data, False), n1)"
    using assms(2) by (cases "ingest env d n") auto
  note k = ingest_keeps [OF i]
  show "phase (on_input env d pk n) = Idle"
    using assms i k
    by (simp add: on_input_def collect_def called_def process_end_def Let_def)
  show "resendOut (on_input env d pk n) = Some (do_send ch data) \<and>
        calls (on_input env d pk n) =
          calls n @ [OnProcessStart data, DoCollect data, OnError e, OnProcessEnd, SetBufferLength]"
    if "send_ready ch \<and> (\<not> cancelled n \<or> pk)"
    using that assms i k
    by (simp add: on_input_def collect_def called_def process_end_def BroadcastCustomized_def
          resend_select_def)
  show "resendOut (on_input env d pk n) = Some ch \<and>
        calls (on_input env d pk n) =
          calls n @ [OnProcessStart data, DoCollect data, OnError e] @
          (if cancelled n then []
           else [OnError (Errorf ''buffer full, drop message from %s to resend sink''
                            [VStr (name n)])]) @
          [OnProcessEnd, SetBufferLength]"
    if "\<not> (send_ready ch \<and> (\<not> cancelled n \<or> pk))"
    using that assms i k
    by (auto simp add: on_input_def collect_def called_def process_end_def BroadcastCustomized_def
          resend_select_def)
qed

text \<open>
  C9, as the code has it. When collect fails and a resend channel is set, the record
  is offered to that channel in a \<open>select\<close> that does not wait, and the iteration ends
  with the node back at the main \<open>select\<close>. When the channel takes the record (a
  waiting receiver or a free slot, and the \<open>select\<close> does not pick the cancellation),
  it is sent. Otherwise the record is dropped and the channel is unchanged; the
  buffer-full error is reported when the context is not cancelled, and nothing is
  reported when it is.
\<close>

theorem resend_never_waits:
  "phase n = Idle \<and> resendOut n = Some ch \<and> fst (ingest env d n) = (data, False) \<and>
   doCollect env (sink n) data = (Some e, sk)
     \<longrightarrow> (\<exists>n'. exec_step env (SelInput d pk) n = Some n' \<and> phase n' = Idle \<and>
              (if send_ready ch \<and> (\<not> cancelled n \<or> pk)
               then resendOut n' = Some (do_send ch data) \<and>
                    calls n' = calls n @
                      [OnProcessStart data, DoCollect data, OnError e, OnProcessEnd,
                       SetBufferLength]
               else resendOut n' = Some ch \<and>
                    calls n' = calls n @
                      [OnProcessStart data, DoCollect data, OnError e] @
                      (if cancelled n then []
                       else [OnError (Errorf ''buffer full, drop message from %s to resend sink''
                                        [VStr (name n)])]) @
                      [OnProcessEnd, SetBufferLength]))"
proof
  assume h: "phase n = Idle \<and> resendOut n = Some ch \<and> fst (ingest env d n) = (data, False) \<and>
             doCollect env (sink n) data = (Some e, sk)"
  then have r: "resendOut n = Some ch" "fst (ingest env d n) = (data, False)"
      "doCollect env (sink n) data = (Some e, sk)"
    by simp_all
  from h have s: "exec_step env (SelInput d pk) n = Some (on_input env d pk n)"
    by (simp add: exec_step_def)
  show "\<exists>n'. exec_step env (SelInput d pk) n = Some n' \<and> phase n' = Idle \<and>
              (if send_ready ch \<and> (\<not> cancelled n \<or> pk)
               then resendOut n' = Some (do_send ch data) \<and>
                    calls n' = calls n @
                      [OnProcessStart data, DoCollect data, OnError e, OnProcessEnd,
                       SetBufferLength]
               else resendOut n' = Some ch \<and>
                    calls n' = calls n @
                      [OnProcessStart data, DoCollect data, OnError e] @
                      (if cancelled n then []
                       else [OnError (Errorf ''buffer full, drop message from %s to resend sink''
                                        [VStr (name n)])]) @
                      [OnProcessEnd, SetBufferLength])"
  proof (cases "send_ready ch \<and> (\<not> cancelled n \<or> pk)")
    case True
    with s on_input_resend(1) [OF r] on_input_resend(2) [OF r True] show ?thesis by simp
  next
    case False
    with s on_input_resend(1) [OF r] on_input_resend(3) [OF r False] show ?thesis by auto
  qed
qed

theorem resend_never_waits_witness:
  "(\<exists>n'. exec_step flaky_env (SelInput (VInt 1) True) (waiting_node\<lparr>resendOut := Some no_slot\<rparr>)
            = Some n' \<and>
          phase n' = Idle \<and> resendOut n' = Some no_slot \<and>
          calls n' = [OnProcessStart (VInt 1), DoCollect (VInt 1), OnError (ErrorsNew ''io timeout''),
                      OnError (Errorf ''buffer full, drop message from %s to resend sink''
                                 [VStr ''sink'']),
                      OnProcessEnd, SetBufferLength]) \<and>
   (\<exists>n'. exec_step flaky_env (SelInput (VInt 1) True) (waiting_node\<lparr>resendOut := Some one_slot\<rparr>)
            = Some n' \<and>
          phase n' = Idle \<and>
          resendOut n' = Some \<lparr>ch_buf = [VInt 1], ch_cap = 1, ch_recvq = 0, ch_handed = []\<rparr> \<and>
          calls n' = [OnProcessStart (VInt 1), DoCollect (VInt 1), OnError (ErrorsNew ''io timeout''),
                      OnProcessEnd, SetBufferLength])"
proof -
  have a: "\<exists>n'. exec_step flaky_env (SelInput (VInt 1) True) (waiting_node\<lparr>resendOut := Some no_slot\<rparr>)
            = Some n' \<and>
          phase n' = Idle \<and> resendOut n' = Some no_slot \<and>
          calls n' = [OnProcessStart (VInt 1), DoCollect (VInt 1), OnError (ErrorsNew ''io timeout''),
                      OnError (Errorf ''buffer full, drop message from %s to resend sink''
                                 [VStr ''sink'']),
                      OnProcessEnd, SetBufferLength]"
    using resend_never_waits
            [where n = "waiting_node\<lparr>resendOut := Some no_slot\<rparr>" and env = flaky_env
               and ch = no_slot and d = "VInt 1" and data = "VInt 1"
               and e = "ErrorsNew ''io timeout''" and sk = 1 and pk = True]
    by (simp add: waiting_node_def flaky_env_def ingest_def logf_def send_ready_def no_slot_def)
  have b: "\<exists>n'. exec_step flaky_env (SelInput (VInt 1) True) (waiting_node\<lparr>resendOut := Some one_slot\<rparr>)
            = Some n' \<and>
          phase n' = Idle \<and>
          resendOut n' = Some \<lparr>ch_buf = [VInt 1], ch_cap = 1, ch_recvq = 0, ch_handed = []\<rparr> \<and>
          calls n' = [OnProcessStart (VInt 1), DoCollect (VInt 1), OnError (ErrorsNew ''io timeout''),
                      OnProcessEnd, SetBufferLength]"
    using resend_never_waits
            [where n = "waiting_node\<lparr>resendOut := Some one_slot\<rparr>" and env = flaky_env
               and ch = one_slot and d = "VInt 1" and data = "VInt 1"
               and e = "ErrorsNew ''io timeout''" and sk = 1 and pk = True]
    by (simp add: waiting_node_def flaky_env_def ingest_def logf_def send_ready_def do_send_def
          one_slot_def)
  from a b show ?thesis by simp
qed

text \<open>
  C9 as stated fails once the context is cancelled: the resend channel is full, no
  receiver waits, the record is dropped, and no buffer-full error is reported. The
  calls of the iteration hold the error of the collect and nothing else.
\<close>

theorem resend_drop_unreported:
  "map_option calls
     (exec_run flaky_env [Cancel, SelInput (VInt 1) False]
        (waiting_node\<lparr>resendOut := Some no_slot\<rparr>))
     = Some [OnProcessStart (VInt 1), DoCollect (VInt 1), OnError (ErrorsNew ''io timeout''),
             OnProcessEnd, SetBufferLength] \<and>
   map_option resendOut
     (exec_run flaky_env [Cancel, SelInput (VInt 1) False]
        (waiting_node\<lparr>resendOut := Some no_slot\<rparr>))
     = Some (Some no_slot)"
  by (simp add: exec_step_def on_input_def ingest_def collect_def called_def logf_def
        process_end_def BroadcastCustomized_def resend_select_def send_ready_def
        waiting_node_def flaky_env_def no_slot_def)

end
